theory Spec2Isabelle
  imports Main "HOL-Library.Word"
begin

section \<open>Common types\<close>

type_synonym u32 = "32 word"

text \<open>
  Every way in which one of the modelled functions can fail to return normally.
  \<open>AssertionFailed\<close> is a failing \<open>assert\<close>; \<open>OutOfRange\<close> is the exception of a
  bounds-checked \<open>at\<close>; \<open>UndefinedBehaviour\<close> marks what the C++ standard leaves
  undefined (an unchecked index out of range, reading through a null pointer,
  \<open>front\<close> of an empty queue, signed overflow, division by zero); the remaining
  constructors are the exception classes thrown by the source.
\<close>

datatype error =
    AssertionFailed
  | OutOfRange
  | UndefinedBehaviour
  | InvalidArgument
  | FileNotFound
  | FileReadError
  | BadStatus
  | ConnectionError

section \<open>Batch (batching/batch.hpp, batching/batch.cpp)\<close>

text \<open>
  The build options \<open>AMDINFER_ENABLE_TRACING\<close> and \<open>AMDINFER_ENABLE_METRICS\<close> decide
  at compile time whether a batch carries traces and start times and whether
  \<open>Batch::size\<close> asserts on them.
\<close>

record BuildOptions =
  enable_tracing :: bool
  enable_metrics :: bool

text \<open>
  The private members of \<open>class Batch\<close>. Requests, buffers, traces and time points
  are held through pointers; the model is polymorphic in what they are.
\<close>

record ('req, 'buf, 'trace, 'time) Batch =
  requests :: "'req list"
  input_buffers :: "'buf list"
  output_buffers :: "'buf list"
  traces :: "'trace list"
  start_times :: "'time list"

text \<open>A default-constructed batch: every vector is empty.\<close>

definition new_Batch :: "('req, 'buf, 'trace, 'time) Batch" where
  "new_Batch = \<lparr>requests = [], input_buffers = [], output_buffers = [],
                 traces = [], start_times = []\<rparr>"

definition addRequest ::
  "'req \<Rightarrow> ('req, 'buf, 'trace, 'time) Batch \<Rightarrow> ('req, 'buf, 'trace, 'time) Batch" where
  "addRequest request b = b\<lparr>requests := requests b @ [request]\<rparr>"

text \<open>
  \<open>getInputBuffers\<close> returns \<open>std::move(input_buffers_)\<close> by value: the result is
  move-constructed from the member, which leaves the member vector empty.
\<close>

definition getInputBuffers ::
  "('req, 'buf, 'trace, 'time) Batch \<Rightarrow> 'buf list \<times> ('req, 'buf, 'trace, 'time) Batch" where
  "getInputBuffers b = (input_buffers b, b\<lparr>input_buffers := []\<rparr>)"

definition getOutputBuffers ::
  "('req, 'buf, 'trace, 'time) Batch \<Rightarrow> 'buf list \<times> ('req, 'buf, 'trace, 'time) Batch" where
  "getOutputBuffers b = (output_buffers b, b\<lparr>output_buffers := []\<rparr>)"

definition getRequests :: "('req, 'buf, 'trace, 'time) Batch \<Rightarrow> 'req list" where
  "getRequests b = requests b"

text \<open>\<open>requests_.at(index)\<close> throws \<open>std::out_of_range\<close> past the end.\<close>

definition at_vec :: "'a list \<Rightarrow> nat \<Rightarrow> error + 'a" where
  "at_vec xs i = (if i < length xs then Inr (xs ! i) else Inl OutOfRange)"

text \<open>\<open>xs[i]\<close> without a bounds check: undefined past the end.\<close>

definition index_vec :: "'a list \<Rightarrow> nat \<Rightarrow> error + 'a" where
  "index_vec xs i = (if i < length xs then Inr (xs ! i) else Inl UndefinedBehaviour)"

definition getRequest :: "('req, 'buf, 'trace, 'time) Batch \<Rightarrow> nat \<Rightarrow> error + 'req" where
  "getRequest b index = at_vec (requests b) index"

definition empty_Batch :: "('req, 'buf, 'trace, 'time) Batch \<Rightarrow> bool" where
  "empty_Batch b = (requests b = [])"

text \<open>
  \<open>Batch::size\<close>: each \<open>assert\<close> is compiled in only under its build option; a failing
  assertion aborts, which is the error branch here.
\<close>

definition size_Batch ::
  "BuildOptions \<Rightarrow> ('req, 'buf, 'trace, 'time) Batch \<Rightarrow> error + nat" where
  "size_Batch opts b =
     (if enable_tracing opts \<and> length (requests b) \<noteq> length (traces b)
        then Inl AssertionFailed
      else if enable_metrics opts \<and> length (requests b) \<noteq> length (start_times b)
        then Inl AssertionFailed
      else Inr (length (requests b)))"

definition getInputSize :: "('req, 'buf, 'trace, 'time) Batch \<Rightarrow> nat" where
  "getInputSize b = length (input_buffers b)"

definition getOutputSize :: "('req, 'buf, 'trace, 'time) Batch \<Rightarrow> nat" where
  "getOutputSize b = length (output_buffers b)"

definition setBuffers ::
  "'buf list \<Rightarrow> 'buf list \<Rightarrow> ('req, 'buf, 'trace, 'time) Batch
     \<Rightarrow> ('req, 'buf, 'trace, 'time) Batch" where
  "setBuffers ins outs b = b\<lparr>input_buffers := ins, output_buffers := outs\<rparr>"

definition addTrace ::
  "'trace \<Rightarrow> ('req, 'buf, 'trace, 'time) Batch \<Rightarrow> ('req, 'buf, 'trace, 'time) Batch" where
  "addTrace trace b = b\<lparr>traces := traces b @ [trace]\<rparr>"

definition getTrace :: "('req, 'buf, 'trace, 'time) Batch \<Rightarrow> nat \<Rightarrow> error + 'trace" where
  "getTrace b index = at_vec (traces b) index"

definition addTime ::
  "'time \<Rightarrow> ('req, 'buf, 'trace, 'time) Batch \<Rightarrow> ('req, 'buf, 'trace, 'time) Batch" where
  "addTime timestamp b = b\<lparr>start_times := start_times b @ [timestamp]\<rparr>"

definition getTime :: "('req, 'buf, 'trace, 'time) Batch \<Rightarrow> nat \<Rightarrow> error + 'time" where
  "getTime b index = at_vec (start_times b) index"

text \<open>
  A history of a batch: the calls of its non-const member functions, in order,
  starting from a default-constructed batch.
\<close>

datatype ('req, 'buf, 'trace, 'time) batch_call =
    AddRequest 'req
  | SetBuffers "'buf list" "'buf list"
  | GetInputBuffers
  | GetOutputBuffers
  | AddTrace 'trace
  | AddTime 'time

fun do_call ::
  "('req, 'buf, 'trace, 'time) batch_call \<Rightarrow> ('req, 'buf, 'trace, 'time) Batch
     \<Rightarrow> ('req, 'buf, 'trace, 'time) Batch" where
  "do_call (AddRequest r) b = addRequest r b"
| "do_call (SetBuffers ins outs) b = setBuffers ins outs b"
| "do_call GetInputBuffers b = snd (getInputBuffers b)"
| "do_call GetOutputBuffers b = snd (getOutputBuffers b)"
| "do_call (AddTrace t) b = addTrace t b"
| "do_call (AddTime t) b = addTime t b"

fun do_calls ::
  "('req, 'buf, 'trace, 'time) batch_call list \<Rightarrow> ('req, 'buf, 'trace, 'time) Batch
     \<Rightarrow> ('req, 'buf, 'trace, 'time) Batch" where
  "do_calls [] b = b"
| "do_calls (c # cs) b = do_calls cs (do_call c b)"

fun is_AddRequest :: "('req, 'buf, 'trace, 'time) batch_call \<Rightarrow> bool" where
  "is_AddRequest (AddRequest r) = True"
| "is_AddRequest c = False"

fun is_AddTrace :: "('req, 'buf, 'trace, 'time) batch_call \<Rightarrow> bool" where
  "is_AddTrace (AddTrace t) = True"
| "is_AddTrace c = False"

fun is_AddTime :: "('req, 'buf, 'trace, 'time) batch_call \<Rightarrow> bool" where
  "is_AddTime (AddTime t) = True"
| "is_AddTime c = False"

definition calls_of ::
  "(('req, 'buf, 'trace, 'time) batch_call \<Rightarrow> bool)
     \<Rightarrow> ('req, 'buf, 'trace, 'time) batch_call list \<Rightarrow> nat" where
  "calls_of p cs = length (filter p cs)"

section \<open>Requests and responses\<close>

text \<open>
  The tensor element types named by the sources (\<open>DataType::Uint32\<close> and so on).
\<close>

datatype DataType =
    Bool | Uint8 | Uint16 | Uint32 | Uint64
  | Int8 | Int16 | Int32 | Int64
  | Fp16 | Fp32 | Fp64 | String

text \<open>
  A tensor as the workers see it, by its getters. The workers below read and
  write the data only through \<open>uint32_t\<close> pointers (and \<open>memcpy\<close> of one \<open>uint32_t\<close>), so the buffer behind
  \<open>getData\<close> is modelled by the sequence of \<open>uint32_t\<close> objects it holds; a null
  data pointer is the empty sequence.
\<close>

record InferenceTensor =
  getName :: string
  getShape :: "nat list"
  getDatatype :: DataType
  getData :: "u32 list"

text \<open>A requested output; the workers only ask for its name.\<close>

record InferenceRequestOutput =
  requested_name :: string

record InferenceRequest =
  req_id :: string
  req_inputs :: "InferenceTensor list"
  req_outputs :: "InferenceRequestOutput list"

record InferenceResponse =
  resp_id :: string
  resp_model :: string
  resp_outputs :: "InferenceTensor list"

definition addOutput :: "InferenceTensor \<Rightarrow> InferenceResponse \<Rightarrow> InferenceResponse" where
  "addOutput output resp = resp\<lparr>resp_outputs := resp_outputs resp @ [output]\<rparr>"

text \<open>
  A \<open>for\<close> loop whose body may fail: the indices (or elements) are visited in order
  and the first failure ends the loop.
\<close>

fun for_each :: "'a list \<Rightarrow> ('a \<Rightarrow> 's \<Rightarrow> error + 's) \<Rightarrow> 's \<Rightarrow> error + 's" where
  "for_each [] body s = Inr s"
| "for_each (i # rest) body s =
     (case body i s of Inl e \<Rightarrow> Inl e | Inr s' \<Rightarrow> for_each rest body s')"

text \<open>\<open>*static_cast<uint32_t*>(p)\<close>: the first object of the buffer.\<close>

definition deref_u32 :: "u32 list \<Rightarrow> error + u32" where
  "deref_u32 buf = (case buf of [] \<Rightarrow> Inl UndefinedBehaviour | v # _ \<Rightarrow> Inr v)"

text \<open>Storing one \<open>uint32_t\<close> at element position \<open>k\<close> of a buffer.\<close>

definition store_u32 :: "u32 list \<Rightarrow> nat \<Rightarrow> u32 \<Rightarrow> error + u32 list" where
  "store_u32 buf k v = (if k < length buf then Inr (buf[k := v]) else Inl UndefinedBehaviour)"

section \<open>The Echo worker (Echo::doRun)\<close>

text \<open>
  The body of the loop over the inputs of one request, for input \<open>i\<close>: read the
  value, add one (\<open>value++\<close> on a \<open>uint32_t\<close> wraps), choose the output's name and
  append the output to the response. The \<open>catch\<close> branch of the source cannot be
  reached, since \<open>value++\<close> does not throw.
\<close>

definition Echo_input_step ::
  "InferenceRequest \<Rightarrow> nat \<Rightarrow> InferenceResponse \<Rightarrow> error + InferenceResponse" where
  "Echo_input_step req i resp =
     (case index_vec (req_inputs req) i of
        Inl e \<Rightarrow> Inl e
      | Inr input \<Rightarrow>
         (case deref_u32 (getData input) of
            Inl e \<Rightarrow> Inl e
          | Inr v \<Rightarrow>
             (let value = v + 1;
                  output_name =
                    (if i < length (req_outputs req)
                     then requested_name (req_outputs req ! i) else [])
              in case index_vec (req_inputs req) 0 of
                   Inl e \<Rightarrow> Inl e
                 | Inr first \<Rightarrow>
                     Inr (addOutput
                       \<lparr>getName = (if output_name = [] then getName first else output_name),
                        getShape = [1], getDatatype = Uint32, getData = [value]\<rparr> resp))))"

text \<open>
  One request of a batch: the response handed to \<open>runCallbackOnce\<close>.
\<close>

definition Echo_request :: "InferenceRequest \<Rightarrow> error + InferenceResponse" where
  "Echo_request req =
     for_each [0..<length (req_inputs req)] (Echo_input_step req)
       \<lparr>resp_id = req_id req, resp_model = ''echo'', resp_outputs = []\<rparr>"

text \<open>
  One batch: the loop over \<open>j < batch->size()\<close>. The state of the loop is the list of
  callback invocations so far, each a request with its response. The batch does
  not change during the loop, so \<open>size\<close> is evaluated once.
\<close>

definition Echo_batch_step ::
  "BuildOptions \<Rightarrow> (InferenceRequest, 'buf, 'trace, 'time) Batch \<Rightarrow> nat
     \<Rightarrow> (InferenceRequest \<times> InferenceResponse) list
     \<Rightarrow> error + (InferenceRequest \<times> InferenceResponse) list" where
  "Echo_batch_step opts batch j calls =
     (case getRequest batch j of
        Inl e \<Rightarrow> Inl e
      | Inr req \<Rightarrow>
          if enable_tracing opts \<and> \<not> j < length (traces batch) then Inl OutOfRange
          else
            (case Echo_request req of
               Inl e \<Rightarrow> Inl e
             | Inr resp \<Rightarrow>
                 if enable_metrics opts \<and> \<not> j < length (start_times batch)
                 then Inl OutOfRange
                 else Inr (calls @ [(req, resp)])))"

definition Echo_batch ::
  "BuildOptions \<Rightarrow> (InferenceRequest, 'buf, 'trace, 'time) Batch
     \<Rightarrow> error + (InferenceRequest \<times> InferenceResponse) list" where
  "Echo_batch opts batch =
     (case size_Batch opts batch of
        Inl e \<Rightarrow> Inl e
      | Inr n \<Rightarrow> for_each [0..<n] (Echo_batch_step opts batch) [])"

section \<open>The echo model (models/echo.cpp)\<close>

definition echo_getInputs :: "InferenceTensor list" where
  "echo_getInputs = [\<lparr>getName = [], getShape = [1], getDatatype = Uint32, getData = []\<rparr>]"

definition echo_getOutputs :: "InferenceTensor list" where
  "echo_getOutputs = [\<lparr>getName = [], getShape = [1], getDatatype = Uint32, getData = []\<rparr>]"

text \<open>
  The loop over the inputs of request \<open>j\<close>: the incremented value of input \<open>i\<close> is
  copied to the start of input \<open>i\<close> of the new request. The state of the loop is
  the list of the new request's inputs.
\<close>

definition echo_input_step ::
  "InferenceTensor list \<Rightarrow> nat \<Rightarrow> InferenceTensor list \<Rightarrow> error + InferenceTensor list" where
  "echo_input_step inputs i new_inputs =
     (case index_vec inputs i of
        Inl e \<Rightarrow> Inl e
      | Inr input \<Rightarrow>
         (case deref_u32 (getData input) of
            Inl e \<Rightarrow> Inl e
          | Inr v \<Rightarrow>
             (case at_vec new_inputs i of
                Inl e \<Rightarrow> Inl e
              | Inr t \<Rightarrow>
                 (case store_u32 (getData t) 0 (v + 1) of
                    Inl e \<Rightarrow> Inl e
                  | Inr buf \<Rightarrow> Inr (new_inputs[i := t\<lparr>getData := buf\<rparr>])))))"

definition echo_request ::
  "InferenceRequest \<Rightarrow> InferenceRequest \<Rightarrow> error + InferenceRequest" where
  "echo_request req new_request =
     (case for_each [0..<length (req_inputs req)] (echo_input_step (req_inputs req))
             (req_inputs new_request) of
        Inl e \<Rightarrow> Inl e
      | Inr new_inputs \<Rightarrow> Inr (new_request\<lparr>req_inputs := new_inputs\<rparr>))"

text \<open>
  The loop of a model's \<open>run(batch, new_batch)\<close> over \<open>j < batch_size\<close>, for a
  model that treats one request by \<open>per_request\<close>: the request \<open>j\<close> of the new
  batch is updated in place, and the trace and the start time of request \<open>j\<close>
  are carried over when the build has them.
\<close>

definition run_step ::
  "(InferenceRequest \<Rightarrow> InferenceRequest \<Rightarrow> error + InferenceRequest) \<Rightarrow> BuildOptions
     \<Rightarrow> (InferenceRequest, 'buf, 'trace, 'time) Batch \<Rightarrow> nat
     \<Rightarrow> (InferenceRequest, 'buf, 'trace, 'time) Batch
     \<Rightarrow> error + (InferenceRequest, 'buf, 'trace, 'time) Batch" where
  "run_step per_request opts batch j new_batch =
     (case getRequest batch j of
        Inl e \<Rightarrow> Inl e
      | Inr req \<Rightarrow>
          if enable_tracing opts \<and> \<not> j < length (traces batch) then Inl OutOfRange
          else
            (case getRequest new_batch j of
               Inl e \<Rightarrow> Inl e
             | Inr new_request \<Rightarrow>
                (case per_request req new_request of
                   Inl e \<Rightarrow> Inl e
                 | Inr new_request' \<Rightarrow>
                    (let b1 = new_batch\<lparr>requests := (requests new_batch)[j := new_request']\<rparr>;
                         b2 = (if enable_tracing opts then addTrace (traces batch ! j) b1
                               else b1)
                     in if enable_metrics opts then
                          (case getTime batch j of
                             Inl e \<Rightarrow> Inl e
                           | Inr t \<Rightarrow> Inr (addTime t b2))
                        else Inr b2))))"

definition run_model ::
  "(InferenceRequest \<Rightarrow> InferenceRequest \<Rightarrow> error + InferenceRequest) \<Rightarrow> BuildOptions
     \<Rightarrow> (InferenceRequest, 'buf, 'trace, 'time) Batch
     \<Rightarrow> (InferenceRequest, 'buf, 'trace, 'time) Batch
     \<Rightarrow> error + (InferenceRequest, 'buf, 'trace, 'time) Batch" where
  "run_model per_request opts batch new_batch =
     (case size_Batch opts batch of
        Inl e \<Rightarrow> Inl e
      | Inr batch_size \<Rightarrow> for_each [0..<batch_size] (run_step per_request opts batch) new_batch)"

definition echo_run ::
  "BuildOptions \<Rightarrow> (InferenceRequest, 'buf, 'trace, 'time) Batch
     \<Rightarrow> (InferenceRequest, 'buf, 'trace, 'time) Batch
     \<Rightarrow> error + (InferenceRequest, 'buf, 'trace, 'time) Batch" where
  "echo_run = run_model echo_request"

section \<open>The echo\_multi model (models/echo\_multi.cpp)\<close>

definition kInputTensors :: nat where
  "kInputTensors = 2"

definition kInputLengths :: "nat list" where
  "kInputLengths = [1, 2]"

definition kOutputTensors :: nat where
  "kOutputTensors = 3"

definition kOutputLengths :: "nat list" where
  "kOutputLengths = [1, 4, 3]"

text \<open>\<open>util::containerSum\<close>: \<open>std::accumulate\<close> with \<open>std::plus\<close> from 0.\<close>

definition containerSum :: "nat list \<Rightarrow> nat" where
  "containerSum c = foldl (+) 0 c"

text \<open>\<open>std::to_string\<close> of a non-negative number: its decimal digits.\<close>

fun to_string :: "nat \<Rightarrow> string" where
  "to_string n =
     (if n < 10 then [char_of (48 + n)]
      else to_string (n div 10) @ [char_of (48 + n mod 10)])"

definition echo_multi_getInputs :: "error + InferenceTensor list" where
  "echo_multi_getInputs =
     for_each [0..<kInputTensors]
       (\<lambda>i ts. case at_vec kInputLengths i of
                  Inl e \<Rightarrow> Inl e
                | Inr len \<Rightarrow>
                    Inr (ts @ [\<lparr>getName = ''input'' @ to_string i, getShape = [len],
                                getDatatype = Uint32, getData = []\<rparr>])) []"

definition echo_multi_getOutputs :: "error + InferenceTensor list" where
  "echo_multi_getOutputs =
     for_each [0..<kOutputTensors]
       (\<lambda>i ts. case at_vec kOutputLengths i of
                  Inl e \<Rightarrow> Inl e
                | Inr len \<Rightarrow>
                    Inr (ts @ [\<lparr>getName = ''output'' @ to_string i, getShape = [len],
                                getDatatype = Uint32, getData = []\<rparr>])) []"

text \<open>
  The first pair of loops collects the arguments: for each of the
  \<open>kInputTensors\<close> inputs, its first \<open>kInputLengths.at(i)\<close> elements. The values
  pass through \<open>std::vector<int>\<close> and are copied out again as four bytes each, so
  their 32 bits are what is kept.
\<close>

definition echo_multi_collect :: "InferenceTensor list \<Rightarrow> error + u32 list" where
  "echo_multi_collect inputs =
     for_each [0..<kInputTensors]
       (\<lambda>i args.
          case index_vec inputs i of
            Inl e \<Rightarrow> Inl e
          | Inr input \<Rightarrow>
             (case at_vec kInputLengths i of
                Inl e \<Rightarrow> Inl e
              | Inr len \<Rightarrow>
                  for_each [0..<len]
                    (\<lambda>k args. case index_vec (getData input) k of
                                 Inl e \<Rightarrow> Inl e
                               | Inr v \<Rightarrow> Inr (args @ [v])) args)) []"

text \<open>
  The second pair of loops fills the first \<open>kOutputTensors\<close> inputs of the new request:
  element \<open>k\<close> of tensor \<open>i\<close> receives \<open>args[input_index]\<close>, and \<open>input_index\<close> advances
  modulo \<open>input_num\<close>. The state is the new request's inputs with \<open>input_index\<close>.
\<close>

definition echo_multi_fill ::
  "u32 list \<Rightarrow> nat \<Rightarrow> InferenceTensor list \<Rightarrow> error + InferenceTensor list \<times> nat" where
  "echo_multi_fill args input_num new_inputs =
     for_each [0..<kOutputTensors]
       (\<lambda>i (ts, input_index).
          case at_vec kOutputLengths i of
            Inl e \<Rightarrow> Inl e
          | Inr len \<Rightarrow>
             (case at_vec ts i of
                Inl e \<Rightarrow> Inl e
              | Inr t \<Rightarrow>
                 (case for_each [0..<len]
                         (\<lambda>k (buf, input_index).
                            case index_vec args input_index of
                              Inl e \<Rightarrow> Inl e
                            | Inr v \<Rightarrow>
                               (case store_u32 buf k v of
                                  Inl e \<Rightarrow> Inl e
                                | Inr buf' \<Rightarrow>
                                    Inr (buf', (input_index + 1) mod input_num)))
                         (getData t, input_index) of
                    Inl e \<Rightarrow> Inl e
                  | Inr (buf, input_index') \<Rightarrow>
                      Inr (ts[i := t\<lparr>getData := buf\<rparr>], input_index'))))
       (new_inputs, 0)"

definition echo_multi_request ::
  "InferenceRequest \<Rightarrow> InferenceRequest \<Rightarrow> error + InferenceRequest" where
  "echo_multi_request req new_request =
     (let input_num = containerSum kInputLengths
      in if input_num = 0 then Inl AssertionFailed
         else
           (case echo_multi_collect (req_inputs req) of
              Inl e \<Rightarrow> Inl e
            | Inr args \<Rightarrow>
               (case echo_multi_fill args input_num (req_inputs new_request) of
                  Inl e \<Rightarrow> Inl e
                | Inr (new_inputs, input_index) \<Rightarrow>
                    Inr (new_request\<lparr>req_inputs := new_inputs\<rparr>))))"

definition echo_multi_run ::
  "BuildOptions \<Rightarrow> (InferenceRequest, 'buf, 'trace, 'time) Batch
     \<Rightarrow> (InferenceRequest, 'buf, 'trace, 'time) Batch
     \<Rightarrow> error + (InferenceRequest, 'buf, 'trace, 'time) Batch" where
  "echo_multi_run = run_model echo_multi_request"

section \<open>Ordered asynchronous inference (clients/client.cpp)\<close>

text \<open>
  \<open>Client\<close> is an abstract class. What a client answers is a parameter \<open>infer\<close>: the
  response that the future returned by \<open>modelInferAsync(model, request)\<close> will hold.
  The state of the two functions below is the list of requests submitted so far,
  the queue \<open>q\<close> of futures (front first), each standing for the response it will
  yield, and the vector of responses.
\<close>

record ('req, 'resp) ordered_state =
  submitted :: "'req list"
  q :: "'resp list"
  responses :: "'resp list"

definition ordered_init :: "('req, 'resp) ordered_state" where
  "ordered_init = \<lparr>submitted = [], q = [], responses = []\<rparr>"

text \<open>\<open>q.push(client->modelInferAsync(model, requests[i]))\<close>\<close>

definition submit_step ::
  "('req \<Rightarrow> 'resp) \<Rightarrow> 'req list \<Rightarrow> nat \<Rightarrow> ('req, 'resp) ordered_state
     \<Rightarrow> error + ('req, 'resp) ordered_state" where
  "submit_step infer reqs i st =
     (case index_vec reqs i of
        Inl e \<Rightarrow> Inl e
      | Inr r \<Rightarrow> Inr (st\<lparr>submitted := submitted st @ [r], q := q st @ [infer r]\<rparr>))"

text \<open>
  \<open>auto& future = q.front(); responses.push_back(future.get()); q.pop();\<close>
  Calling \<open>front\<close> on an empty \<open>std::queue\<close> is undefined.
\<close>

definition collect_step ::
  "nat \<Rightarrow> ('req, 'resp) ordered_state \<Rightarrow> error + ('req, 'resp) ordered_state" where
  "collect_step i st =
     (case q st of
        [] \<Rightarrow> Inl UndefinedBehaviour
      | future # rest \<Rightarrow> Inr (st\<lparr>responses := responses st @ [future], q := rest\<rparr>))"

definition inferAsyncOrdered ::
  "('req \<Rightarrow> 'resp) \<Rightarrow> 'req list \<Rightarrow> error + ('req, 'resp) ordered_state" where
  "inferAsyncOrdered infer reqs =
     (case for_each [0..<length reqs] (submit_step infer reqs) ordered_init of
        Inl e \<Rightarrow> Inl e
      | Inr st \<Rightarrow> for_each [0..<length reqs] collect_step st)"

text \<open>
  The \<open>while\<close> loop of \<open>inferAsyncOrderedBatched\<close>. It need not end (with
  \<open>batch_size = 0\<close> and a request it never advances), so it is a partial function:
  \<open>None\<close> is a loop that runs forever. The first inner loop runs \<open>i\<close> from
  \<open>start_index\<close> while \<open>i < batch_size\<close>, as the source has it. The result is
  \<open>start_index\<close> at the exit with the state.
\<close>

partial_function (option) batched_windows ::
  "('req \<Rightarrow> 'resp) \<Rightarrow> 'req list \<Rightarrow> nat \<Rightarrow> nat \<Rightarrow> ('req, 'resp) ordered_state
     \<Rightarrow> (error + nat \<times> ('req, 'resp) ordered_state) option" where
  "batched_windows infer reqs batch_size start_index st =
     (if start_index + batch_size < length reqs then
        (case for_each [start_index..<batch_size] (submit_step infer reqs) st of
           Inl e \<Rightarrow> Some (Inl e)
         | Inr st1 \<Rightarrow>
            (case for_each [0..<batch_size] collect_step st1 of
               Inl e \<Rightarrow> Some (Inl e)
             | Inr st2 \<Rightarrow>
                 batched_windows infer reqs batch_size (start_index + batch_size) st2))
      else Some (Inr (start_index, st)))"

text \<open>The rest of the function: the last, possibly partial, window.\<close>

definition batched_tail ::
  "('req \<Rightarrow> 'resp) \<Rightarrow> 'req list \<Rightarrow> nat \<Rightarrow> ('req, 'resp) ordered_state
     \<Rightarrow> error + ('req, 'resp) ordered_state" where
  "batched_tail infer reqs start_index st =
     (if start_index \<noteq> length reqs then
        (case for_each [start_index..<length reqs] (submit_step infer reqs) st of
           Inl e \<Rightarrow> Inl e
         | Inr st1 \<Rightarrow> for_each [0..<length reqs - start_index] collect_step st1)
      else Inr st)"

definition inferAsyncOrderedBatched ::
  "('req \<Rightarrow> 'resp) \<Rightarrow> 'req list \<Rightarrow> nat
     \<Rightarrow> (error + ('req, 'resp) ordered_state) option" where
  "inferAsyncOrderedBatched infer reqs batch_size =
     (case batched_windows infer reqs batch_size 0 ordered_init of
        None \<Rightarrow> None
      | Some (Inl e) \<Rightarrow> Some (Inl e)
      | Some (Inr (start_index, st)) \<Rightarrow> Some (batched_tail infer reqs start_index st))"

section \<open>The HTTP client (clients/http.cpp)\<close>

datatype ReqResult =
    Ok | BadResponse | NetworkFailure | BadServerAddress | Timeout
  | HandshakeError | InvalidCertificate | OtherReqResult

definition checkError :: "ReqResult \<Rightarrow> error + unit" where
  "checkError result =
     (case result of
        Ok \<Rightarrow> Inr ()
      | BadResponse \<Rightarrow> Inl BadStatus
      | NetworkFailure \<Rightarrow> Inl BadStatus
      | BadServerAddress \<Rightarrow> Inl ConnectionError
      | Timeout \<Rightarrow> Inl BadStatus
      | HandshakeError \<Rightarrow> Inl BadStatus
      | InvalidCertificate \<Rightarrow> Inl BadStatus
      | OtherReqResult \<Rightarrow> Inl BadStatus)"

datatype HttpMethod = Get | Post

record 'json HttpRequest =
  http_method :: HttpMethod
  http_path :: string
  http_json :: "'json option"
  http_headers :: "(string \<times> string) list"

record 'json HttpResponse =
  statusCode :: nat
  jsonObject :: 'json

definition k200OK :: nat where
  "k200OK = 200"

definition createGetRequest :: "string \<Rightarrow> (string \<times> string) list \<Rightarrow> 'json HttpRequest" where
  "createGetRequest path headers =
     \<lparr>http_method = Get, http_path = path, http_json = None, http_headers = headers\<rparr>"

definition createPostRequest ::
  "'json \<Rightarrow> string \<Rightarrow> (string \<times> string) list \<Rightarrow> 'json HttpRequest" where
  "createPostRequest json path headers =
     \<lparr>http_method = Post, http_path = path, http_json = Some json, http_headers = headers\<rparr>"

text \<open>
  What the client is linked against and connected to: the JSON codecs
  \<open>mapRequestToJson\<close> and \<open>mapJsonToResponse\<close> (clients/http\_internal), the headers
  of the client, and the server, given by its answer to each HTTP request.
\<close>

record ('json, 'resp) HttpEnv =
  mapRequestToJson :: "InferenceRequest \<Rightarrow> 'json"
  mapJsonToResponse :: "'json \<Rightarrow> 'resp"
  getHeaders :: "(string \<times> string) list"
  server :: "'json HttpRequest \<Rightarrow> ReqResult \<times> 'json HttpResponse"

definition createInferenceRequest ::
  "('json, 'resp) HttpEnv \<Rightarrow> string \<Rightarrow> InferenceRequest \<Rightarrow> error + 'json HttpRequest" where
  "createInferenceRequest env model request =
     (if req_inputs request = [] then Inl InvalidArgument
      else Inr (createPostRequest (mapRequestToJson env request)
                  (''/v2/models/'' @ model @ ''/infer'') (getHeaders env)))"

text \<open>
  The state of the client is the list of HTTP requests it has handed to
  \<open>sendRequest\<close>. \<open>modelInfer\<close> returns the response or the exception thrown.
\<close>

definition HttpClient_modelInfer ::
  "('json, 'resp) HttpEnv \<Rightarrow> string \<Rightarrow> InferenceRequest \<Rightarrow> 'json HttpRequest list
     \<Rightarrow> (error + 'resp) \<times> 'json HttpRequest list" where
  "HttpClient_modelInfer env model request sent =
     (case createInferenceRequest env model request of
        Inl e \<Rightarrow> (Inl e, sent)
      | Inr req \<Rightarrow>
          (let (result, response) = server env req;
               sent' = sent @ [req]
           in case checkError result of
                Inl e \<Rightarrow> (Inl e, sent')
              | Inr u \<Rightarrow>
                  if statusCode response \<noteq> k200OK then (Inl BadStatus, sent')
                  else (Inr (mapJsonToResponse env (jsonObject response)), sent')))"

text \<open>
  \<open>modelInferAsync\<close> returns a future or throws. The value the future will hold is
  decided by the completion callback: the decoded response, or an error-bearing
  response (\<open>Inl\<close> here) when the request failed.
\<close>

definition HttpClient_modelInferAsync ::
  "('json, 'resp) HttpEnv \<Rightarrow> string \<Rightarrow> InferenceRequest \<Rightarrow> 'json HttpRequest list
     \<Rightarrow> (error + (error + 'resp)) \<times> 'json HttpRequest list" where
  "HttpClient_modelInferAsync env model request sent =
     (case createInferenceRequest env model request of
        Inl e \<Rightarrow> (Inl e, sent)
      | Inr req \<Rightarrow>
          (let (result, response) = server env req;
               sent' = sent @ [req]
           in case checkError result of
                Inl e \<Rightarrow> (Inr (Inl e), sent')
              | Inr u \<Rightarrow>
                  if statusCode response \<noteq> k200OK then (Inr (Inl BadStatus), sent')
                  else (Inr (Inr (mapJsonToResponse env (jsonObject response))), sent')))"

section \<open>The model repository (core/model\_repository.cpp)\<close>

text \<open>
  The fields of the \<open>config.pbtxt\<close> message that \<open>parseModel\<close> reads. Shapes and
  integer parameters are 64-bit in the message; a parameter is a \<open>oneof\<close> that may
  be unset. A \<open>double\<close> is only passed along, so it is kept as its 64 bits.
\<close>

record ConfigTensor =
  cfg_name :: string
  cfg_shape :: "64 word list"

datatype InferParameter2 =
    kBoolParam bool
  | kInt64Param "64 word"
  | kDoubleParam "64 word"
  | kStringParam string
  | kNotSet

record Config =
  platform :: string
  cfg_inputs :: "ConfigTensor list"
  cfg_outputs :: "ConfigTensor list"
  cfg_parameters :: "(string \<times> InferParameter2) list"

text \<open>
  A value held by a \<open>ParameterMap\<close>: \<open>bool\<close>, \<open>int\<close> (32 bits), \<open>double\<close> or string.
\<close>

datatype Parameter =
    BoolValue bool
  | IntValue "32 word"
  | DoubleValue "64 word"
  | StringValue string

type_synonym ParameterMap = "string \<rightharpoonup> Parameter"

text \<open>
  \<open>ParameterMap::put\<close> is declared in core/parameters.hpp and its body is not
  among the sources, so \<open>parseModel\<close> takes it as the parameter \<open>put\<close>. Two ways
  it may treat a key that is already present:
\<close>

definition put_assign :: "ParameterMap \<Rightarrow> string \<Rightarrow> Parameter \<Rightarrow> ParameterMap" where
  "put_assign m key v = m(key \<mapsto> v)"

definition put_emplace :: "ParameterMap \<Rightarrow> string \<Rightarrow> Parameter \<Rightarrow> ParameterMap" where
  "put_emplace m key v = (if m key = None then m(key \<mapsto> v) else m)"

text \<open>
  \<open>mapProtoToParameters2\<close>: every set entry of the message's parameters is put,
  in iteration order; \<open>static_cast<int>\<close> keeps the low 32 bits.
\<close>

definition mapProtoToParameters2 ::
  "(ParameterMap \<Rightarrow> string \<Rightarrow> Parameter \<Rightarrow> ParameterMap)
     \<Rightarrow> (string \<times> InferParameter2) list \<Rightarrow> ParameterMap \<Rightarrow> ParameterMap" where
  "mapProtoToParameters2 put params parameters =
     foldl (\<lambda>m (key, v).
              case v of
                kBoolParam b \<Rightarrow> put m key (BoolValue b)
              | kInt64Param i \<Rightarrow> put m key (IntValue (ucast i))
              | kDoubleParam d \<Rightarrow> put m key (DoubleValue d)
              | kStringParam s \<Rightarrow> put m key (StringValue s)
              | kNotSet \<Rightarrow> m) parameters params"

text \<open>
  The file system as \<open>parseModel\<close> uses it: whether a path exists, and what
  opening and parsing the file at a path gives.
\<close>

datatype config_file = CannotOpen | CannotParse | Parsed Config

record FileSystem =
  fs_exists :: "string \<Rightarrow> bool"
  fs_config :: "string \<Rightarrow> config_file"

text \<open>\<open>operator/\<close> on paths, for a relative right-hand side.\<close>

definition path_join :: "string \<Rightarrow> string \<Rightarrow> string" where
  "path_join a b = a @ ''/'' @ b"

text \<open>
  The two loops of the \<open>tensorflow_graphdef\<close> branch. \<open>shape.at\<close> is the
  bounds-checked accessor of a repeated field: on an empty shape it does not
  return.
\<close>

definition tf_input_step ::
  "(ParameterMap \<Rightarrow> string \<Rightarrow> Parameter \<Rightarrow> ParameterMap)
     \<Rightarrow> ConfigTensor \<Rightarrow> ParameterMap \<Rightarrow> error + ParameterMap" where
  "tf_input_step put input m =
     (let m1 = put m ''input_node'' (StringValue (cfg_name input));
          shape = cfg_shape input
      in case at_vec shape 0 of
           Inl e \<Rightarrow> Inl e
         | Inr first \<Rightarrow>
            (let m2 = put m1 ''input_size'' (IntValue (ucast first))
             in case at_vec shape (length shape - 1) of
                  Inl e \<Rightarrow> Inl e
                | Inr dn \<Rightarrow> Inr (put m2 ''image_channels'' (IntValue (ucast dn)))))"

definition tf_output_step ::
  "(ParameterMap \<Rightarrow> string \<Rightarrow> Parameter \<Rightarrow> ParameterMap)
     \<Rightarrow> ConfigTensor \<Rightarrow> ParameterMap \<Rightarrow> error + ParameterMap" where
  "tf_output_step put output m =
     (let m1 = put m ''output_node'' (StringValue (cfg_name output))
      in case at_vec (cfg_shape output) 0 of
           Inl e \<Rightarrow> Inl e
         | Inr first \<Rightarrow> Inr (put m1 ''output_classes'' (IntValue (ucast first))))"

text \<open>The chain of comparisons on \<open>config.platform()\<close>.\<close>

definition parse_platform ::
  "(ParameterMap \<Rightarrow> string \<Rightarrow> Parameter \<Rightarrow> ParameterMap)
     \<Rightarrow> Config \<Rightarrow> string \<Rightarrow> ParameterMap \<Rightarrow> error + ParameterMap" where
  "parse_platform put config model_base parameters =
     (if platform config = ''tensorflow_graphdef'' then
        (case for_each (cfg_inputs config) (tf_input_step put) parameters of
           Inl e \<Rightarrow> Inl e
         | Inr m1 \<Rightarrow>
            (case for_each (cfg_outputs config) (tf_output_step put) m1 of
               Inl e \<Rightarrow> Inl e
             | Inr m2 \<Rightarrow>
                 Inr (put (put m2 ''worker'' (StringValue ''tfzendnn''))
                        ''model'' (StringValue (model_base @ ''.pb'')))))
      else if platform config = ''pytorch_torchscript'' then
        Inr (put (put parameters ''worker'' (StringValue ''ptzendnn''))
               ''model'' (StringValue (model_base @ ''.pt'')))
      else if platform config = ''onnx_onnxv1'' then
        Inr (put (put parameters ''worker'' (StringValue ''migraphx''))
               ''model'' (StringValue (model_base @ ''.onnx'')))
      else if platform config = ''migraphx_mxr'' then
        Inr (put (put parameters ''worker'' (StringValue ''migraphx''))
               ''model'' (StringValue (model_base @ ''.mxr'')))
      else if platform config = ''vitis_xmodel'' then
        Inr (put (put parameters ''worker'' (StringValue ''xmodel''))
               ''model'' (StringValue (model_base @ ''.xmodel'')))
      else Inl InvalidArgument)"

text \<open>
  The first part of \<open>parseModel\<close>: where the model and its configuration file
  are. KServe may nest the model directory once more.
\<close>

definition config_location :: "FileSystem \<Rightarrow> string \<Rightarrow> string \<Rightarrow> string \<times> string" where
  "config_location fs repository model =
     (let config_file = ''config.pbtxt'';
          model_path = path_join repository model;
          config_path = path_join model_path config_file
      in if \<not> fs_exists fs config_path
            \<and> fs_exists fs (path_join (path_join model_path model) config_file)
         then (path_join model_path model,
               path_join (path_join model_path model) config_file)
         else (model_path, config_path))"

definition parseModel ::
  "(ParameterMap \<Rightarrow> string \<Rightarrow> Parameter \<Rightarrow> ParameterMap)
     \<Rightarrow> FileSystem \<Rightarrow> string \<Rightarrow> string \<Rightarrow> ParameterMap \<Rightarrow> error + ParameterMap" where
  "parseModel put fs repository model parameters =
     (case config_location fs repository model of
        (model_path, config_path) \<Rightarrow>
          (let model_base = path_join model_path ''1/saved_model''
           in case fs_config fs config_path of
                CannotOpen \<Rightarrow> Inl FileNotFound
              | CannotParse \<Rightarrow> Inl FileReadError
              | Parsed config \<Rightarrow>
                 (case parse_platform put config model_base parameters of
                    Inl e \<Rightarrow> Inl e
                  | Inr m \<Rightarrow> Inr (mapProtoToParameters2 put (cfg_parameters config) m))))"

text \<open>
  What \<open>parameters->get("worker")\<close> finds after \<open>parseModel\<close> has returned.
\<close>

definition parsed_worker ::
  "(ParameterMap \<Rightarrow> string \<Rightarrow> Parameter \<Rightarrow> ParameterMap)
     \<Rightarrow> FileSystem \<Rightarrow> string \<Rightarrow> string \<Rightarrow> ParameterMap \<Rightarrow> error + Parameter option" where
  "parsed_worker put fs repository model parameters =
     (case parseModel put fs repository model parameters of
        Inl e \<Rightarrow> Inl e
      | Inr m \<Rightarrow> Inr (m ''worker''))"

section \<open>Buffer (buffers/buffer.hpp)\<close>

text \<open>
  Memory is a map from addresses to bytes. A buffer is known through its
  virtual function \<open>data\<close>, from an offset to the address to use. The value
  handed to the template \<open>write\<close> is either a \<open>std::string\<close> or an object of
  another type, given by the \<open>sizeof(T)\<close> bytes of its representation.
\<close>

type_synonym memory = "nat \<Rightarrow> char"

datatype write_value = OfString string | OfObject "char list"

definition copy_to :: "nat \<Rightarrow> char list \<Rightarrow> memory \<Rightarrow> memory" where
  "copy_to addr bytes mem =
     (\<lambda>a. if addr \<le> a \<and> a < addr + length bytes then bytes ! (a - addr) else mem a)"

text \<open>
  The template \<open>Buffer::write(T value, size_t offset)\<close>. The non-string branch
  returns what the virtual \<open>write(void*, size_t, size_t)\<close> returns, here the
  parameter \<open>write_raw\<close>.
\<close>

definition Buffer_write ::
  "(nat \<Rightarrow> nat) \<Rightarrow> (char list \<Rightarrow> nat \<Rightarrow> nat \<Rightarrow> memory \<Rightarrow> nat \<times> memory)
     \<Rightarrow> write_value \<Rightarrow> nat \<Rightarrow> memory \<Rightarrow> nat \<times> memory" where
  "Buffer_write data_at write_raw v offset mem =
     (case v of
        OfString s \<Rightarrow>
          (let null_term = CHR 0x00;
               mem1 = copy_to (data_at offset) s mem;
               mem2 = copy_to (data_at offset + length s) [null_term] mem1
           in (offset + length s + 1, mem2))
      | OfObject bytes \<Rightarrow> write_raw bytes offset (length bytes) mem)"

text \<open>
  Modelled from the spec: the body of the virtual
  \<open>Buffer::write(void* data, size_t offset, size_t size)\<close> is missing from the
  sources (buffers/buffer.cpp); only its declaration is there. The spec gives
  \<open>write(value, offset)\<close> as returning the new offset: \<open>size\<close> bytes are copied to
  \<open>data(offset)\<close> and the offset past them is returned.
\<close>

definition Buffer_write_raw ::
  "(nat \<Rightarrow> nat) \<Rightarrow> char list \<Rightarrow> nat \<Rightarrow> nat \<Rightarrow> memory \<Rightarrow> nat \<times> memory" where
  "Buffer_write_raw data_at bytes offset size' mem =
     (offset + size', copy_to (data_at offset) (take size' bytes) mem)"

section \<open>VartTensorBuffer (buffers/vart\_tensor.cpp)\<close>

text \<open>
  The dimensions, \<open>stride\<close> and the entries of \<open>shape\<close> are \<open>int\<close> (32 bits);
  \<open>offset\<close> is \<open>size_t\<close> (64 bits). Values are integers here, with each conversion
  and each overflow written out: signed overflow and division by zero are
  undefined, conversions to \<open>size_t\<close> and to \<open>int\<close> reduce modulo the width.
\<close>

definition INT_MAX :: int where
  "INT_MAX = 2147483647"

definition INT_MIN :: int where
  "INT_MIN = - 2147483648"

definition mul_int :: "int \<Rightarrow> int \<Rightarrow> error + int" where
  "mul_int a b =
     (if INT_MIN \<le> a * b \<and> a * b \<le> INT_MAX then Inr (a * b) else Inl UndefinedBehaviour)"

definition to_size_t :: "int \<Rightarrow> int" where
  "to_size_t i = i mod 2 ^ 64"

definition to_int :: "int \<Rightarrow> int" where
  "to_int i = (let r = i mod 2 ^ 32 in if r < 2 ^ 31 then r else r - 2 ^ 32)"

text \<open>The inner loop: \<open>stride\<close> is the product of the dimensions after \<open>k\<close>.\<close>

definition stride_step :: "int list \<Rightarrow> nat \<Rightarrow> int \<Rightarrow> error + int" where
  "stride_step dims m stride =
     (case index_vec dims m of
        Inl e \<Rightarrow> Inl e
      | Inr d \<Rightarrow> mul_int stride d)"

definition stride_of :: "int list \<Rightarrow> nat \<Rightarrow> error + int" where
  "stride_of dims k = for_each [k + 1..<length dims] (stride_step dims) 1"

text \<open>The body of the outer loop; the state is \<open>shape\<close> with \<open>offset\<close>.\<close>

definition data_step :: "int list \<Rightarrow> nat \<Rightarrow> int list \<times> int \<Rightarrow> error + int list \<times> int" where
  "data_step dims k st =
     (case st of (shape, offset) \<Rightarrow>
        (case stride_of dims k of
           Inl e \<Rightarrow> Inl e
         | Inr stride \<Rightarrow>
             if to_size_t stride = 0 then Inl UndefinedBehaviour
             else
               (let idx = to_int (offset div to_size_t stride)
                in case mul_int idx stride of
                     Inl e \<Rightarrow> Inl e
                   | Inr p \<Rightarrow> Inr (shape[k := idx], to_size_t (offset - to_size_t p)))))"

text \<open>
  The index vector that \<open>VartTensorBuffer::data\<close> passes to the tensor buffer,
  for a tensor of shape \<open>dims\<close>.
\<close>

definition data_index :: "int list \<Rightarrow> int \<Rightarrow> error + int list" where
  "data_index dims offset =
     (case for_each [0..<length dims] (data_step dims)
             (replicate (length dims) 0, offset) of
        Inl e \<Rightarrow> Inl e
      | Inr (shape, offset') \<Rightarrow> Inr shape)"

text \<open>The weight of index \<open>k\<close> in row-major order.\<close>

definition row_major_stride :: "int list \<Rightarrow> nat \<Rightarrow> int" where
  "row_major_stride dims k = prod_list (drop (Suc k) dims)"

definition row_major_offset :: "int list \<Rightarrow> int list \<Rightarrow> int" where
  "row_major_offset dims idx = (\<Sum>k<length dims. idx ! k * row_major_stride dims k)"

definition in_bounds :: "int list \<Rightarrow> int list \<Rightarrow> bool" where
  "in_bounds dims idx =
     (length idx = length dims \<and> (\<forall>k<length dims. 0 \<le> idx ! k \<and> idx ! k < dims ! k))"

section \<open>Loops\<close>

lemma for_each_append:
  "for_each (xs @ ys) body s =
     (case for_each xs body s of Inl e \<Rightarrow> Inl e | Inr s' \<Rightarrow> for_each ys body s')"
  by (induction xs arbitrary: s) (auto split: sum.splits)

section \<open>Properties of Batch\<close>

lemma requests_do_call:
  "length (requests (do_call c b)) = length (requests b) + (if is_AddRequest c then 1 else 0)"
  by (cases c) (simp_all add: addRequest_def setBuffers_def getInputBuffers_def
      getOutputBuffers_def addTrace_def addTime_def)

lemma traces_do_call:
  "length (traces (do_call c b)) = length (traces b) + (if is_AddTrace c then 1 else 0)"
  by (cases c) (simp_all add: addRequest_def setBuffers_def getInputBuffers_def
      getOutputBuffers_def addTrace_def addTime_def)

lemma start_times_do_call:
  "length (start_times (do_call c b)) = length (start_times b) + (if is_AddTime c then 1 else 0)"
  by (cases c) (simp_all add: addRequest_def setBuffers_def getInputBuffers_def
      getOutputBuffers_def addTrace_def addTime_def)

lemma requests_do_calls:
  "length (requests (do_calls cs b)) = length (requests b) + calls_of is_AddRequest cs"
  by (induction cs arbitrary: b) (simp_all add: calls_of_def requests_do_call)

lemma traces_do_calls:
  "length (traces (do_calls cs b)) = length (traces b) + calls_of is_AddTrace cs"
  by (induction cs arbitrary: b) (simp_all add: calls_of_def traces_do_call)

lemma start_times_do_calls:
  "length (start_times (do_calls cs b)) = length (start_times b) + calls_of is_AddTime cs"
  by (induction cs arbitrary: b) (simp_all add: calls_of_def start_times_do_call)

text \<open>
  Claim C8. Take any history of calls on a default-constructed batch. If, with
  tracing enabled, it has as many \<open>addTrace\<close> calls as \<open>addRequest\<close> calls, and, with
  metrics enabled, as many \<open>addTime\<close> calls as \<open>addRequest\<close> calls, then \<open>Batch::size\<close>
  passes its assertions and returns the number of requests added.
\<close>

theorem Batch_size_balanced:
  assumes "enable_tracing opts \<Longrightarrow> calls_of is_AddTrace cs = calls_of is_AddRequest cs"
    and "enable_metrics opts \<Longrightarrow> calls_of is_AddTime cs = calls_of is_AddRequest cs"
  shows "size_Batch opts (do_calls cs new_Batch) = Inr (calls_of is_AddRequest cs)"
  using assms
  by (simp add: size_Batch_def requests_do_calls traces_do_calls start_times_do_calls
      new_Batch_def)

theorem Batch_size_balanced_witness:
  "calls_of is_AddTrace [AddRequest (1::nat), AddTrace (7::nat), AddTime (3::nat),
       SetBuffers [5::nat] [6], AddRequest 2, AddTime 4, AddTrace 8] = 2
   \<and> size_Batch \<lparr>enable_tracing = True, enable_metrics = True\<rparr>
        (do_calls [AddRequest (1::nat), AddTrace (7::nat), AddTime (3::nat),
           SetBuffers [5::nat] [6], AddRequest 2, AddTime 4, AddTrace 8] new_Batch) = Inr 2"
  using Batch_size_balanced [of "\<lparr>enable_tracing = True, enable_metrics = True\<rparr>"
      "[AddRequest (1::nat), AddTrace (7::nat), AddTime (3::nat),
        SetBuffers [5::nat] [6], AddRequest 2, AddTime 4, AddTrace 8]"]
  by (simp add: calls_of_def)

text \<open>
  Claim C9. \<open>getInputBuffers\<close> moves the input buffers out of the batch: after
  \<open>setBuffers(ins, outs)\<close> it returns exactly \<open>ins\<close>, the batch then has input
  size 0, and its requests, output buffers, traces and start times are as
  before. \<open>getOutputBuffers\<close> does the same for the output buffers.
\<close>

theorem moving_getters:
  "fst (getInputBuffers (setBuffers ins outs b)) = ins
   \<and> getInputSize (snd (getInputBuffers (setBuffers ins outs b))) = 0
   \<and> requests (snd (getInputBuffers (setBuffers ins outs b))) = requests b
   \<and> output_buffers (snd (getInputBuffers (setBuffers ins outs b))) = outs
   \<and> traces (snd (getInputBuffers (setBuffers ins outs b))) = traces b
   \<and> start_times (snd (getInputBuffers (setBuffers ins outs b))) = start_times b
   \<and> fst (getOutputBuffers (setBuffers ins outs b)) = outs
   \<and> getOutputSize (snd (getOutputBuffers (setBuffers ins outs b))) = 0
   \<and> requests (snd (getOutputBuffers (setBuffers ins outs b))) = requests b
   \<and> input_buffers (snd (getOutputBuffers (setBuffers ins outs b))) = ins
   \<and> traces (snd (getOutputBuffers (setBuffers ins outs b))) = traces b
   \<and> start_times (snd (getOutputBuffers (setBuffers ins outs b))) = start_times b"
  by (simp add: getInputBuffers_def getOutputBuffers_def setBuffers_def getInputSize_def
      getOutputSize_def)

section \<open>Properties of the Echo worker\<close>

lemma Echo_input_step_eq:
  assumes "i < length (req_inputs req)" and "getData (req_inputs req ! i) \<noteq> []"
  shows "Echo_input_step req i resp =
     Inr (resp\<lparr>resp_outputs := resp_outputs resp @
        [\<lparr>getName =
                      (if i < length (req_outputs req)
                          \<and> requested_name (req_outputs req ! i) \<noteq> []
                       then requested_name (req_outputs req ! i)
                       else getName (req_inputs req ! 0)),
                   getShape = [1], getDatatype = Uint32,
                   getData = [hd (getData (req_inputs req ! i)) + 1]\<rparr>]\<rparr>)"
proof -
  from assms(2) obtain v rest where d: "getData (req_inputs req ! i) = v # rest"
    by (cases "getData (req_inputs req ! i)") auto
  from assms(1) have pos: "0 < length (req_inputs req)" by auto
  show ?thesis
    using assms(1) pos d
    by (simp add: Echo_input_step_def index_vec_def deref_u32_def addOutput_def Let_def)
qed

lemma Echo_loop:
  assumes "\<forall>i<length (req_inputs req). getData (req_inputs req ! i) \<noteq> []"
    and "n \<le> length (req_inputs req)"
  shows "for_each [0..<n] (Echo_input_step req) resp =
     Inr (resp\<lparr>resp_outputs := resp_outputs resp @
        map (\<lambda>i. \<lparr>getName =
                      (if i < length (req_outputs req)
                          \<and> requested_name (req_outputs req ! i) \<noteq> []
                       then requested_name (req_outputs req ! i)
                       else getName (req_inputs req ! 0)),
                   getShape = [1], getDatatype = Uint32,
                   getData = [hd (getData (req_inputs req ! i)) + 1]\<rparr>) [0..<n]\<rparr>)"
  using assms(2)
proof (induction n)
  case 0
  show ?case by simp
next
  case (Suc n)
  from Suc.prems have n: "n < length (req_inputs req)" by simp
  with assms(1) have d: "getData (req_inputs req ! n) \<noteq> []" by simp
  from Suc.IH n have IH: "for_each [0..<n] (Echo_input_step req) resp = Inr (resp\<lparr>resp_outputs := resp_outputs resp @
        map (\<lambda>i. \<lparr>getName =
                      (if i < length (req_outputs req)
                          \<and> requested_name (req_outputs req ! i) \<noteq> []
                       then requested_name (req_outputs req ! i)
                       else getName (req_inputs req ! 0)),
                   getShape = [1], getDatatype = Uint32,
                   getData = [hd (getData (req_inputs req ! i)) + 1]\<rparr>) [0..<n]\<rparr>)" by simp
  show ?case
    by (simp add: for_each_append IH Echo_input_step_eq [OF n d])
qed

lemma Echo_request_eq:
  assumes "\<forall>i<length (req_inputs req). getData (req_inputs req ! i) \<noteq> []"
  shows "Echo_request req =
     Inr \<lparr>resp_id = req_id req, resp_model = ''echo'',
          resp_outputs =
            map (\<lambda>i. \<lparr>getName =
                      (if i < length (req_outputs req)
                          \<and> requested_name (req_outputs req ! i) \<noteq> []
                       then requested_name (req_outputs req ! i)
                       else getName (req_inputs req ! 0)),
                   getShape = [1], getDatatype = Uint32,
                   getData = [hd (getData (req_inputs req ! i)) + 1]\<rparr>)
              [0..<length (req_inputs req)]\<rparr>"
  unfolding Echo_request_def
  by (simp add: Echo_loop [OF assms])

text \<open>
  A batch of one request: the worker invokes the callback of that request once,
  with the response computed for it.
\<close>

lemma Echo_batch_single:
  assumes "requests batch = [req]" and "Echo_request req = Inr resp"
    and "enable_tracing opts \<longrightarrow> length (traces batch) = 1"
    and "enable_metrics opts \<longrightarrow> length (start_times batch) = 1"
  shows "Echo_batch opts batch = Inr [(req, resp)]"
  using assms
  by (auto simp: Echo_batch_def size_Batch_def Echo_batch_step_def getRequest_def at_vec_def)

text \<open>
  Claim C1, as amended. For a request with a single input tensor whose buffer
  holds the \<open>uint32\<close> value \<open>v\<close>, the Echo worker answers with exactly one output
  tensor, of type \<open>UINT32\<close> and shape \<open>[1]\<close>, whose value is \<open>v + 1\<close> (modulo
  \<open>2^32\<close>). The output carries the name of the first requested output when the
  request has one with a non-empty name, and the name of the input tensor
  otherwise.
\<close>

theorem Echo_single_input:
  assumes "req_inputs req = [input]" and "getData input = v # rest"
  shows "Echo_request req =
     Inr \<lparr>resp_id = req_id req, resp_model = ''echo'',
          resp_outputs =
            [\<lparr>getName =
                (if req_outputs req \<noteq> [] \<and> requested_name (hd (req_outputs req)) \<noteq> []
                 then requested_name (hd (req_outputs req)) else getName input),
              getShape = [1], getDatatype = Uint32, getData = [v + 1]\<rparr>]\<rparr>"
proof -
  have "\<forall>i<length (req_inputs req). getData (req_inputs req ! i) \<noteq> []"
    using assms by simp
  from Echo_request_eq [OF this] show ?thesis
    using assms by (cases "req_outputs req") simp_all
qed

theorem Echo_single_input_witness:
  "Echo_request \<lparr>req_id = ''7'',
       req_inputs = [\<lparr>getName = ''in'', getShape = [1], getDatatype = Uint32, getData = [41]\<rparr>],
       req_outputs = []\<rparr> =
     Inr \<lparr>resp_id = ''7'', resp_model = ''echo'',
          resp_outputs =
            [\<lparr>getName = ''in'', getShape = [1], getDatatype = Uint32, getData = [42]\<rparr>]\<rparr>"
  using Echo_single_input [of "\<lparr>req_id = ''7'',
       req_inputs = [\<lparr>getName = ''in'', getShape = [1], getDatatype = Uint32, getData = [41]\<rparr>],
       req_outputs = []\<rparr>" "\<lparr>getName = ''in'', getShape = [1], getDatatype = Uint32, getData = [41]\<rparr>" 41 "[]"]
  by simp

text \<open>
  Claim C1 as it was stated fails for a request that names its output: the
  input is called \<open>in\<close>, the requested output \<open>out\<close>, and the output tensor of
  the response is called \<open>out\<close>.
\<close>

theorem Echo_named_output_counterexample:
  "Echo_request \<lparr>req_id = ''7'',
       req_inputs = [\<lparr>getName = ''in'', getShape = [1], getDatatype = Uint32, getData = [41]\<rparr>],
       req_outputs = [\<lparr>requested_name = ''out''\<rparr>]\<rparr> =
     Inr \<lparr>resp_id = ''7'', resp_model = ''echo'',
          resp_outputs =
            [\<lparr>getName = ''out'', getShape = [1], getDatatype = Uint32, getData = [42]\<rparr>]\<rparr>
   \<and> ''out'' \<noteq> ''in''"
  by (simp add: Echo_request_def Echo_input_step_def index_vec_def deref_u32_def
        addOutput_def Let_def)

lemma for_each_Inr_steps:
  assumes "for_each xs body s = Inr s'" and "i \<in> set xs"
  shows "\<exists>a b. body i a = Inr b"
  using assms
proof (induction xs arbitrary: s)
  case Nil
  then show ?case by simp
next
  case (Cons x xs)
  from Cons.prems(1) obtain s1 where s1: "body x s = Inr s1" "for_each xs body s1 = Inr s'"
    by (auto split: sum.splits)
  show ?case
  proof (cases "i = x")
    case True
    with s1(1) show ?thesis by blast
  next
    case False
    with Cons.prems(2) have "i \<in> set xs" by simp
    from Cons.IH [OF s1(2) this] show ?thesis .
  qed
qed

lemma Echo_input_step_data:
  assumes "Echo_input_step req i a = Inr b"
  shows "i < length (req_inputs req) \<and> getData (req_inputs req ! i) \<noteq> []"
  using assms
  by (auto simp: Echo_input_step_def index_vec_def deref_u32_def
      split: if_splits list.splits sum.splits)

lemma Echo_request_Inr_data:
  assumes "Echo_request req = Inr resp"
  shows "\<forall>i<length (req_inputs req). getData (req_inputs req ! i) \<noteq> []"
proof (intro allI impI)
  fix i assume "i < length (req_inputs req)"
  then have "i \<in> set [0..<length (req_inputs req)]" by simp
  from for_each_Inr_steps [OF assms [unfolded Echo_request_def] this]
  obtain a b where "Echo_input_step req i a = Inr b" by blast
  from Echo_input_step_data [OF this] show "getData (req_inputs req ! i) \<noteq> []" by simp
qed

text \<open>
  Claim C10. For a request with two or more input tensors whose requested
  outputs are absent or have empty names, every output tensor of the response
  that the Echo worker produces is given the name of the first input tensor;
  and when every input has data, there is such a response, with one output per
  input, each computed from its own input (its value plus one).
\<close>

theorem Echo_outputs_named_after_first_input:
  assumes "2 \<le> length (req_inputs req)"
    and "\<forall>out\<in>set (req_outputs req). requested_name out = []"
  shows "(\<forall>resp. Echo_request req = Inr resp \<longrightarrow>
            (\<forall>out\<in>set (resp_outputs resp). getName out = getName (req_inputs req ! 0)))
      \<and> ((\<forall>t\<in>set (req_inputs req). getData t \<noteq> []) \<longrightarrow>
            (\<exists>resp. Echo_request req = Inr resp
               \<and> length (resp_outputs resp) = length (req_inputs req)
               \<and> (\<forall>i<length (req_inputs req).
                     getName (resp_outputs resp ! i) = getName (req_inputs req ! 0)
                   \<and> getData (resp_outputs resp ! i)
                       = [hd (getData (req_inputs req ! i)) + 1])))"
proof -
  have names: "\<forall>i<length (req_outputs req). requested_name (req_outputs req ! i) = []"
    using assms(2) by simp
  have a: "\<forall>out\<in>set (resp_outputs resp). getName out = getName (req_inputs req ! 0)"
    if r: "Echo_request req = Inr resp" for resp
  proof -
    from Echo_request_eq [OF Echo_request_Inr_data [OF r]] r names
    show ?thesis by auto
  qed
  have b: "\<exists>resp. Echo_request req = Inr resp
               \<and> length (resp_outputs resp) = length (req_inputs req)
               \<and> (\<forall>i<length (req_inputs req).
                     getName (resp_outputs resp ! i) = getName (req_inputs req ! 0)
                   \<and> getData (resp_outputs resp ! i)
                       = [hd (getData (req_inputs req ! i)) + 1])"
    if d: "\<forall>t\<in>set (req_inputs req). getData t \<noteq> []"
  proof -
    from d have "\<forall>i<length (req_inputs req). getData (req_inputs req ! i) \<noteq> []" by simp
    with names show ?thesis by (auto simp: Echo_request_eq)
  qed
  from a b show ?thesis by blast
qed

theorem Echo_outputs_named_after_first_input_witness:
  "\<exists>resp. Echo_request \<lparr>req_id = ''9'',
       req_inputs = [\<lparr>getName = ''a'', getShape = [1], getDatatype = Uint32, getData = [1]\<rparr>,
                     \<lparr>getName = ''b'', getShape = [1], getDatatype = Uint32, getData = [5]\<rparr>],
       req_outputs = [\<lparr>requested_name = []\<rparr>]\<rparr> = Inr resp
     \<and> length (resp_outputs resp) = 2
     \<and> (\<forall>i<2. getName (resp_outputs resp ! i) = ''a''
              \<and> getData (resp_outputs resp ! i) = [hd ([ [1], [5] ] ! i) + 1])"
  using Echo_outputs_named_after_first_input [of "\<lparr>req_id = ''9'',
       req_inputs = [\<lparr>getName = ''a'', getShape = [1], getDatatype = Uint32, getData = [1]\<rparr>,
                     \<lparr>getName = ''b'', getShape = [1], getDatatype = Uint32, getData = [5]\<rparr>],
       req_outputs = [\<lparr>requested_name = []\<rparr>]\<rparr>"]
  by (simp add: less_Suc_eq numeral_2_eq_2 all_conj_distrib)

section \<open>Properties of the HTTP client\<close>

text \<open>
  Claim C4. For a request whose list of inputs is empty, \<open>modelInfer\<close> and
  \<open>modelInferAsync\<close> of the HTTP client fail with \<open>InvalidArgument\<close> before
  anything is handed to \<open>sendRequest\<close>: the list of requests sent to the server
  is unchanged, so the server never sees the request and forms no batch for it.
\<close>

theorem empty_inputs_rejected:
  assumes "req_inputs request = []"
  shows "HttpClient_modelInfer env model request sent = (Inl InvalidArgument, sent)
       \<and> HttpClient_modelInferAsync env model request sent = (Inl InvalidArgument, sent)"
  using assms
  by (simp add: HttpClient_modelInfer_def HttpClient_modelInferAsync_def
      createInferenceRequest_def)

theorem empty_inputs_rejected_witness:
  "HttpClient_modelInfer
     \<lparr>mapRequestToJson = (\<lambda>r. length (req_inputs r)), mapJsonToResponse = (\<lambda>j. j),
      getHeaders = [], server = (\<lambda>r. (Ok, \<lparr>statusCode = 200, jsonObject = 0\<rparr>))\<rparr>
     ''echo'' \<lparr>req_id = ''1'', req_inputs = [], req_outputs = []\<rparr> []
     = (Inl InvalidArgument, [])
   \<and> HttpClient_modelInferAsync
     \<lparr>mapRequestToJson = (\<lambda>r. length (req_inputs r)), mapJsonToResponse = (\<lambda>j. j),
      getHeaders = [], server = (\<lambda>r. (Ok, \<lparr>statusCode = 200, jsonObject = 0\<rparr>))\<rparr>
     ''echo'' \<lparr>req_id = ''1'', req_inputs = [], req_outputs = []\<rparr> []
     = (Inl InvalidArgument, [])"
  using empty_inputs_rejected [of "\<lparr>req_id = ''1'', req_inputs = [], req_outputs = []\<rparr>"
      "\<lparr>mapRequestToJson = (\<lambda>r. length (req_inputs r)), mapJsonToResponse = (\<lambda>j. j),
      getHeaders = [], server = (\<lambda>r. (Ok, \<lparr>statusCode = 200, jsonObject = 0\<rparr>))\<rparr>"
      "''echo''" "[]"]
  by simp

section \<open>Properties of the echo models\<close>

text \<open>
  The echo model on one request with one input: the incremented value is written
  to the start of the new request's input.
\<close>

lemma echo_request_single:
  assumes "req_inputs req = [input]" and "getData input = v # rest"
    and "req_inputs new_request = [t]" and "getData t = x # xs"
  shows "echo_request req new_request =
     Inr (new_request\<lparr>req_inputs := [t\<lparr>getData := (v + 1) # xs\<rparr>]\<rparr>)"
  using assms
  by (simp add: echo_request_def echo_input_step_def index_vec_def at_vec_def
      deref_u32_def store_u32_def)

lemma to_string_digits:
  "to_string 0 = ''0''" "to_string (Suc 0) = ''1''" "to_string (Suc (Suc 0)) = ''2''"
  by code_simp+

text \<open>
  The fan-out of echo\_multi for any three input values and any previous
  contents of the output buffers; names, shapes and types are not looked at.
\<close>

lemma echo_multi_cycle:
  "echo_multi_request
       \<lparr>req_id = i,
        req_inputs =
          [\<lparr>getName = n0, getShape = s0, getDatatype = d0, getData = [a]\<rparr>,
           \<lparr>getName = n1, getShape = s1, getDatatype = d1, getData = [b, c]\<rparr>],
        req_outputs = ros\<rparr>
       \<lparr>req_id = j,
        req_inputs =
          [\<lparr>getName = m0, getShape = t0, getDatatype = e0, getData = [x0]\<rparr>,
           \<lparr>getName = m1, getShape = t1, getDatatype = e1, getData = [x1, x2, x3, x4]\<rparr>,
           \<lparr>getName = m2, getShape = t2, getDatatype = e2, getData = [x5, x6, x7]\<rparr>],
        req_outputs = ros'\<rparr>
     = Inr
       \<lparr>req_id = j,
        req_inputs =
          [\<lparr>getName = m0, getShape = t0, getDatatype = e0, getData = [a]\<rparr>,
           \<lparr>getName = m1, getShape = t1, getDatatype = e1, getData = [b, c, a, b]\<rparr>,
           \<lparr>getName = m2, getShape = t2, getDatatype = e2, getData = [c, a, b]\<rparr>],
        req_outputs = ros'\<rparr>"
  by (simp add: echo_multi_request_def echo_multi_collect_def
      echo_multi_fill_def kInputTensors_def kInputLengths_def kOutputTensors_def
      kOutputLengths_def containerSum_def at_vec_def index_vec_def store_u32_def
      upt_conv_Cons Let_def)

text \<open>
  Claim C3. The echo\_multi model declares three \<open>UINT32\<close> outputs of shapes
  \<open>[1]\<close>, \<open>[4]\<close> and \<open>[3]\<close>. For a request whose two \<open>UINT32\<close> inputs of shapes
  \<open>[1]\<close> and \<open>[2]\<close> hold \<open>[10]\<close> and \<open>[20, 30]\<close>, it fills the three tensors of
  the new request with \<open>[10]\<close>, \<open>[20, 30, 10, 20]\<close> and \<open>[30, 10, 20]\<close>: the
  sequence \<open>[10, 20, 30]\<close> replayed cyclically across the outputs in order.
\<close>

theorem echo_multi_fan_out:
  "echo_multi_getInputs = Inr
     [\<lparr>getName = ''input0'', getShape = [1], getDatatype = Uint32, getData = []\<rparr>,
      \<lparr>getName = ''input1'', getShape = [2], getDatatype = Uint32, getData = []\<rparr>]
   \<and> echo_multi_getOutputs = Inr
     [\<lparr>getName = ''output0'', getShape = [1], getDatatype = Uint32, getData = []\<rparr>,
      \<lparr>getName = ''output1'', getShape = [4], getDatatype = Uint32, getData = []\<rparr>,
      \<lparr>getName = ''output2'', getShape = [3], getDatatype = Uint32, getData = []\<rparr>]
   \<and> echo_multi_run opts
       \<lparr>requests =
          [\<lparr>req_id = [],
            req_inputs =
              [\<lparr>getName = ''input0'', getShape = [1], getDatatype = Uint32, getData = [10]\<rparr>,
               \<lparr>getName = ''input1'', getShape = [2], getDatatype = Uint32,
                  getData = [20, 30]\<rparr>],
            req_outputs = []\<rparr>],
        input_buffers = ins, output_buffers = outs, traces = [trace], start_times = [t]\<rparr>
       \<lparr>requests =
          [\<lparr>req_id = [],
            req_inputs =
              [\<lparr>getName = ''output0'', getShape = [1], getDatatype = Uint32, getData = [0]\<rparr>,
               \<lparr>getName = ''output1'', getShape = [4], getDatatype = Uint32,
                  getData = [0, 0, 0, 0]\<rparr>,
               \<lparr>getName = ''output2'', getShape = [3], getDatatype = Uint32,
                  getData = [0, 0, 0]\<rparr>],
            req_outputs = []\<rparr>],
        input_buffers = ins', output_buffers = outs', traces = [], start_times = []\<rparr>
     = Inr
       \<lparr>requests =
          [\<lparr>req_id = [],
            req_inputs =
              [\<lparr>getName = ''output0'', getShape = [1], getDatatype = Uint32, getData = [10]\<rparr>,
               \<lparr>getName = ''output1'', getShape = [4], getDatatype = Uint32,
                  getData = [20, 30, 10, 20]\<rparr>,
               \<lparr>getName = ''output2'', getShape = [3], getDatatype = Uint32,
                  getData = [30, 10, 20]\<rparr>],
            req_outputs = []\<rparr>],
        input_buffers = ins', output_buffers = outs',
        traces = (if enable_tracing opts then [trace] else []),
        start_times = (if enable_metrics opts then [t] else [])\<rparr>"
  by (simp add: echo_multi_getInputs_def echo_multi_getOutputs_def kInputTensors_def
      kInputLengths_def kOutputTensors_def kOutputLengths_def at_vec_def upt_conv_Cons
      to_string_digits echo_multi_run_def run_model_def run_step_def size_Batch_def
      getRequest_def getTime_def addTrace_def addTime_def echo_multi_cycle
      del: to_string.simps)

section \<open>Properties of ordered asynchronous inference\<close>

lemma submit_step_eq:
  "i < length reqs \<Longrightarrow>
   submit_step infer reqs i st =
     Inr (st\<lparr>submitted := submitted st @ [reqs ! i], q := q st @ [infer (reqs ! i)]\<rparr>)"
  by (simp add: submit_step_def index_vec_def)

lemma collect_step_eq:
  "q st = future # rest \<Longrightarrow>
   collect_step i st = Inr (st\<lparr>responses := responses st @ [future], q := rest\<rparr>)"
  by (simp add: collect_step_def)

lemma submit_loop:
  assumes "b \<le> length reqs"
  shows "for_each [a..<b] (submit_step infer reqs) st =
     Inr (st\<lparr>submitted := submitted st @ take (b - a) (drop a reqs),
             q := q st @ map infer (take (b - a) (drop a reqs))\<rparr>)"
  using assms
proof (induction b)
  case 0
  show ?case by simp
next
  case (Suc b)
  show ?case
  proof (cases "a \<le> b")
    case True
    from Suc.prems have b: "b < length reqs" by simp
    from True b have t: "take (Suc b - a) (drop a reqs) = take (b - a) (drop a reqs) @ [reqs ! b]"
      by (simp add: Suc_diff_le take_Suc_conv_app_nth)
    from Suc.IH b have IH: "for_each [a..<b] (submit_step infer reqs) st =
     Inr (st\<lparr>submitted := submitted st @ take (b - a) (drop a reqs),
             q := q st @ map infer (take (b - a) (drop a reqs))\<rparr>)" by simp
    show ?thesis
      using True b
      by (simp add: for_each_append IH t submit_step_eq)
  next
    case False
    then show ?thesis by simp
  qed
qed

lemma collect_loop:
  assumes "n \<le> length (q st)"
  shows "for_each [0..<n] collect_step st =
     Inr (st\<lparr>responses := responses st @ take n (q st), q := drop n (q st)\<rparr>)"
  using assms
proof (induction n)
  case 0
  show ?case by simp
next
  case (Suc n)
  from Suc.prems have n: "n < length (q st)" by simp
  from Suc.IH n have IH: "for_each [0..<n] collect_step st =
     Inr (st\<lparr>responses := responses st @ take n (q st), q := drop n (q st)\<rparr>)" by simp
  from n have d: "drop n (q st) = q st ! n # drop (Suc n) (q st)"
    by (simp add: Cons_nth_drop_Suc)
  have step: "collect_step n (st\<lparr>responses := responses st @ take n (q st), q := drop n (q st)\<rparr>) =
     Inr (st\<lparr>responses := responses st @ take n (q st) @ [q st ! n],
             q := drop (Suc n) (q st)\<rparr>)"
    by (subst collect_step_eq [where future = "q st ! n" and rest = "drop (Suc n) (q st)"])
       (simp_all add: d)
  show ?case
    using n by (simp add: for_each_append IH step take_Suc_conv_app_nth)
qed

lemma collect_empty:
  assumes "q st = []" and "0 < n"
  shows "for_each [0..<n] collect_step st = Inl UndefinedBehaviour"
  using assms by (simp add: upt_conv_Cons collect_step_def)

text \<open>
  The unbatched function submits every request once, in order, and returns the
  responses in the same order.
\<close>

lemma inferAsyncOrdered_ok:
  "inferAsyncOrdered infer reqs =
     Inr \<lparr>submitted = reqs, q = [], responses = map infer reqs\<rparr>"
  by (simp add: inferAsyncOrdered_def submit_loop collect_loop ordered_init_def)

text \<open>
  The batched function does the same as long as the requests fit in two
  windows.
\<close>

lemma inferAsyncOrderedBatched_two_windows:
  assumes "length reqs \<le> 2 * batch_size"
  shows "inferAsyncOrderedBatched infer reqs batch_size =
     Some (Inr \<lparr>submitted = reqs, q = [], responses = map infer reqs\<rparr>)"
proof (cases "batch_size < length reqs")
  case True
  let ?st2 = "\<lparr>submitted = take batch_size reqs, q = [],
               responses = map infer (take batch_size reqs)\<rparr>"
  have w2: "batched_windows infer reqs batch_size batch_size ?st2 = Some (Inr (batch_size, ?st2))"
    using assms by (subst batched_windows.simps) simp
  have w1: "batched_windows infer reqs batch_size 0 ordered_init = Some (Inr (batch_size, ?st2))"
    using True
    by (subst batched_windows.simps)
       (simp add: submit_loop collect_loop ordered_init_def w2)
  have "batched_tail infer reqs batch_size ?st2 =
     Inr \<lparr>submitted = take batch_size reqs @ drop batch_size reqs, q = [],
          responses = map infer (take batch_size reqs) @ map infer (drop batch_size reqs)\<rparr>"
    using True by (simp add: batched_tail_def submit_loop collect_loop)
  then show ?thesis
    by (simp add: inferAsyncOrderedBatched_def w1 flip: map_append)
next
  case False
  have w1: "batched_windows infer reqs batch_size 0 ordered_init = Some (Inr (0, ordered_init))"
    using False by (subst batched_windows.simps) simp
  have "batched_tail infer reqs 0 ordered_init =
     Inr \<lparr>submitted = reqs, q = [], responses = map infer reqs\<rparr>"
    by (cases "reqs = []") (simp_all add: batched_tail_def submit_loop collect_loop ordered_init_def)
  then show ?thesis
    by (simp add: inferAsyncOrderedBatched_def w1)
qed

text \<open>
  Claim C2 says that \<open>inferAsyncOrderedBatched\<close> with \<open>batch_size \<ge> 1\<close> submits
  every request exactly once and returns one response per request, in order.
  The code does not: whenever there are more than \<open>2 * batch_size\<close> requests,
  the second pass of the \<open>while\<close> loop starts from \<open>start_index = batch_size\<close>,
  its first inner loop (\<open>i < batch_size\<close>) submits nothing, and the second inner
  loop calls \<open>front\<close> on the empty queue.
\<close>

theorem inferAsyncOrderedBatched_third_window:
  assumes "1 \<le> batch_size" and "2 * batch_size < length reqs"
  shows "inferAsyncOrderedBatched infer reqs batch_size = Some (Inl UndefinedBehaviour)"
proof -
  let ?st2 = "\<lparr>submitted = take batch_size reqs, q = [],
               responses = map infer (take batch_size reqs)\<rparr>"
  have w2: "batched_windows infer reqs batch_size batch_size ?st2 = Some (Inl UndefinedBehaviour)"
    using assms
    by (subst batched_windows.simps) (simp add: collect_empty)
  have "batched_windows infer reqs batch_size 0 ordered_init = Some (Inl UndefinedBehaviour)"
    using assms
    by (subst batched_windows.simps)
       (simp add: submit_loop collect_loop ordered_init_def w2)
  then show ?thesis
    by (simp add: inferAsyncOrderedBatched_def)
qed

theorem inferAsyncOrderedBatched_third_window_witness:
  "(1::nat) \<le> 1 \<and> 2 * 1 < length [''a'', ''b'', ''c'']
   \<and> inferAsyncOrderedBatched length [''a'', ''b'', ''c''] 1 = Some (Inl UndefinedBehaviour)"
  using inferAsyncOrderedBatched_third_window [of 1 "[''a'', ''b'', ''c'']" length]
  by simp

section \<open>Properties of parseModel\<close>

lemma tf_input_step_worker:
  assumes other: "\<forall>m k v k'. k' \<noteq> k \<longrightarrow> put m k v k' = m k'"
    and "tf_input_step put input m = Inr m'"
  shows "m' ''worker'' = m ''worker''"
  using assms(2) other
  by (auto simp: tf_input_step_def at_vec_def Let_def split: if_splits)

lemma tf_output_step_worker:
  assumes other: "\<forall>m k v k'. k' \<noteq> k \<longrightarrow> put m k v k' = m k'"
    and "tf_output_step put output m = Inr m'"
  shows "m' ''worker'' = m ''worker''"
  using assms(2) other
  by (auto simp: tf_output_step_def at_vec_def Let_def split: if_splits)

lemma tf_inputs_worker:
  assumes other: "\<forall>m k v k'. k' \<noteq> k \<longrightarrow> put m k v k' = m k'"
    and "\<forall>t\<in>set ts. cfg_shape t \<noteq> []"
  shows "\<exists>m'. for_each ts (tf_input_step put) m = Inr m' \<and> m' ''worker'' = m ''worker''"
  using assms(2)
proof (induction ts arbitrary: m)
  case Nil
  show ?case by simp
next
  case (Cons t ts)
  from Cons.prems have "cfg_shape t \<noteq> []" by simp
  then obtain m1 where s: "tf_input_step put t m = Inr m1"
    by (auto simp: tf_input_step_def at_vec_def Let_def)
  from tf_input_step_worker [OF other s] have w: "m1 ''worker'' = m ''worker''" .
  from Cons.IH [of m1] Cons.prems obtain m' where
    "for_each ts (tf_input_step put) m1 = Inr m'" "m' ''worker'' = m1 ''worker''" by auto
  with s w show ?case by simp
qed

lemma tf_outputs_worker:
  assumes other: "\<forall>m k v k'. k' \<noteq> k \<longrightarrow> put m k v k' = m k'"
    and "\<forall>t\<in>set ts. cfg_shape t \<noteq> []"
  shows "\<exists>m'. for_each ts (tf_output_step put) m = Inr m' \<and> m' ''worker'' = m ''worker''"
  using assms(2)
proof (induction ts arbitrary: m)
  case Nil
  show ?case by simp
next
  case (Cons t ts)
  from Cons.prems have "cfg_shape t \<noteq> []" by simp
  then obtain m1 where s: "tf_output_step put t m = Inr m1"
    by (auto simp: tf_output_step_def at_vec_def Let_def)
  from tf_output_step_worker [OF other s] have w: "m1 ''worker'' = m ''worker''" .
  from Cons.IH [of m1] Cons.prems obtain m' where
    "for_each ts (tf_output_step put) m1 = Inr m'" "m' ''worker'' = m1 ''worker''" by auto
  with s w show ?case by simp
qed

lemma mapProtoToParameters2_worker:
  assumes other: "\<forall>m k v k'. k' \<noteq> k \<longrightarrow> put m k v k' = m k'"
    and "''worker'' \<notin> fst ` set params"
  shows "mapProtoToParameters2 put params m ''worker'' = m ''worker''"
  using assms(2) unfolding mapProtoToParameters2_def
proof (induction params arbitrary: m)
  case Nil
  show ?case by simp
next
  case (Cons p params)
  obtain key v where p: "p = (key, v)" by (cases p)
  with Cons.prems have k: "''worker'' \<noteq> key" and r: "''worker'' \<notin> fst ` set params" by auto
  show ?case
    using other k by (cases v) (simp_all add: p Cons.IH [OF r])
qed

lemma put_assign_laws:
  "\<forall>m k v. m k = None \<longrightarrow> put_assign m k v k = Some v"
  "\<forall>m k v k'. k' \<noteq> k \<longrightarrow> put_assign m k v k' = m k'"
  by (simp_all add: put_assign_def)

lemma put_emplace_laws:
  "\<forall>m k v. m k = None \<longrightarrow> put_emplace m k v k = Some v"
  "\<forall>m k v k'. k' \<noteq> k \<longrightarrow> put_emplace m k v k' = m k'"
  by (simp_all add: put_emplace_def)

text \<open>
  Claim C5, as amended. Let the configuration file open and parse, let the
  parameter map hold no \<open>worker\<close> entry beforehand and the parameters of the
  configuration none either, and let \<open>put\<close> store a value under a key that is
  absent and leave the other keys alone. Then \<open>parseModel\<close> sets \<open>worker\<close> from
  the platform: \<open>tensorflow_graphdef\<close> gives \<open>tfzendnn\<close> (provided every input and
  output tensor of the configuration has a non-empty shape, which that branch
  reads), \<open>pytorch_torchscript\<close> gives \<open>ptzendnn\<close>, \<open>onnx_onnxv1\<close> and
  \<open>migraphx_mxr\<close> both give \<open>migraphx\<close>, \<open>vitis_xmodel\<close> gives \<open>xmodel\<close>; for every
  other platform it fails with \<open>InvalidArgument\<close>. The mapping is many-to-one.
\<close>

theorem parseModel_worker:
  assumes fresh: "\<forall>m k v. m k = None \<longrightarrow> put m k v k = Some v"
    and other: "\<forall>m k v k'. k' \<noteq> k \<longrightarrow> put m k v k' = m k'"
    and parsed: "fs_config fs (snd (config_location fs repository model)) = Parsed config"
    and absent: "parameters ''worker'' = None"
    and no_override: "''worker'' \<notin> fst ` set (cfg_parameters config)"
    and shapes: "platform config = ''tensorflow_graphdef'' \<longrightarrow>
                   (\<forall>t\<in>set (cfg_inputs config) \<union> set (cfg_outputs config). cfg_shape t \<noteq> [])"
  shows "parsed_worker put fs repository model parameters =
     (if platform config = ''tensorflow_graphdef'' then Inr (Some (StringValue ''tfzendnn''))
      else if platform config = ''pytorch_torchscript'' then Inr (Some (StringValue ''ptzendnn''))
      else if platform config = ''onnx_onnxv1'' then Inr (Some (StringValue ''migraphx''))
      else if platform config = ''migraphx_mxr'' then Inr (Some (StringValue ''migraphx''))
      else if platform config = ''vitis_xmodel'' then Inr (Some (StringValue ''xmodel''))
      else Inl InvalidArgument)"
proof -
  obtain model_path config_path where
    loc: "config_location fs repository model = (model_path, config_path)"
    by (cases "config_location fs repository model")
  with parsed have cfg: "fs_config fs config_path = Parsed config" by simp
  let ?base = "path_join model_path ''1/saved_model''"
  have after: "\<And>m. parse_platform put config ?base parameters = Inr m \<Longrightarrow>
      parsed_worker put fs repository model parameters = Inr (m ''worker'')"
    by (simp add: parsed_worker_def parseModel_def loc cfg
        mapProtoToParameters2_worker [OF other no_override])
  have fail: "\<And>e. parse_platform put config ?base parameters = Inl e \<Longrightarrow>
      parsed_worker put fs repository model parameters = Inl e"
    by (simp add: parsed_worker_def parseModel_def loc cfg)
  have pw: "\<And>m w x. m ''worker'' = None \<Longrightarrow>
      put (put m ''worker'' w) ''model'' x ''worker'' = Some w"
    using fresh other by simp
  show ?thesis
  proof (cases "platform config = ''tensorflow_graphdef''")
    case True
    with shapes have si: "\<forall>t\<in>set (cfg_inputs config). cfg_shape t \<noteq> []"
      and so: "\<forall>t\<in>set (cfg_outputs config). cfg_shape t \<noteq> []" by auto
    from tf_inputs_worker [OF other si, of parameters] obtain m1 where
      m1: "for_each (cfg_inputs config) (tf_input_step put) parameters = Inr m1"
        "m1 ''worker'' = parameters ''worker''" by blast
    from tf_outputs_worker [OF other so, of m1] obtain m2 where
      m2: "for_each (cfg_outputs config) (tf_output_step put) m1 = Inr m2"
        "m2 ''worker'' = m1 ''worker''" by blast
    from m1(2) m2(2) absent have none: "m2 ''worker'' = None" by simp
    have "parse_platform put config ?base parameters =
        Inr (put (put m2 ''worker'' (StringValue ''tfzendnn''))
               ''model'' (StringValue (?base @ ''.pb'')))"
      using True by (simp add: parse_platform_def m1(1) m2(1))
    from after [OF this] show ?thesis
      using True by (simp add: pw none)
  next
    case False
    note not_tf = this
    consider (pt) "platform config = ''pytorch_torchscript''"
      | (onnx) "platform config = ''onnx_onnxv1''"
      | (mxr) "platform config = ''migraphx_mxr''"
      | (xmodel) "platform config = ''vitis_xmodel''"
      | (unknown) "platform config \<noteq> ''pytorch_torchscript''"
          "platform config \<noteq> ''onnx_onnxv1''" "platform config \<noteq> ''migraphx_mxr''"
          "platform config \<noteq> ''vitis_xmodel''"
      by blast
    then show ?thesis
    proof cases
      case pt
      have "parse_platform put config ?base parameters =
        Inr (put (put parameters ''worker'' (StringValue ''ptzendnn''))
               ''model'' (StringValue (?base @ ''.pt'')))"
        using pt by (simp add: parse_platform_def)
      from after [OF this] show ?thesis
        using pt by (simp add: pw absent)
    next
      case onnx
      have "parse_platform put config ?base parameters =
        Inr (put (put parameters ''worker'' (StringValue ''migraphx''))
               ''model'' (StringValue (?base @ ''.onnx'')))"
        using onnx by (simp add: parse_platform_def)
      from after [OF this] show ?thesis
        using onnx by (simp add: pw absent)
    next
      case mxr
      have "parse_platform put config ?base parameters =
        Inr (put (put parameters ''worker'' (StringValue ''migraphx''))
               ''model'' (StringValue (?base @ ''.mxr'')))"
        using mxr by (simp add: parse_platform_def)
      from after [OF this] show ?thesis
        using mxr by (simp add: pw absent)
    next
      case xmodel
      have "parse_platform put config ?base parameters =
        Inr (put (put parameters ''worker'' (StringValue ''xmodel''))
               ''model'' (StringValue (?base @ ''.xmodel'')))"
        using xmodel by (simp add: parse_platform_def)
      from after [OF this] show ?thesis
        using xmodel by (simp add: pw absent)
    next
      case unknown
      have "parse_platform put config ?base parameters = Inl InvalidArgument"
        using unknown not_tf by (simp add: parse_platform_def)
      from fail [OF this] show ?thesis
        using unknown not_tf by simp
    qed
  qed
qed

theorem parseModel_worker_witness:
  "parsed_worker put_assign
     \<lparr>fs_exists = (\<lambda>p. True),
      fs_config = (\<lambda>p. Parsed \<lparr>platform = ''tensorflow_graphdef'',
          cfg_inputs = [\<lparr>cfg_name = ''input'', cfg_shape = [224, 224, 3]\<rparr>],
          cfg_outputs = [\<lparr>cfg_name = ''predictions'', cfg_shape = [1000]\<rparr>],
          cfg_parameters = [(''batch_size'', kInt64Param 4)]\<rparr>)\<rparr>
     ''/repo'' ''resnet50'' Map.empty = Inr (Some (StringValue ''tfzendnn''))
   \<and> parsed_worker put_emplace
     \<lparr>fs_exists = (\<lambda>p. True),
      fs_config = (\<lambda>p. Parsed \<lparr>platform = ''tensorflow_lite'',
          cfg_inputs = [], cfg_outputs = [], cfg_parameters = []\<rparr>)\<rparr>
     ''/repo'' ''resnet50'' Map.empty = Inl InvalidArgument"
proof -
  have a: "parsed_worker put_assign
     \<lparr>fs_exists = (\<lambda>p. True),
      fs_config = (\<lambda>p. Parsed \<lparr>platform = ''tensorflow_graphdef'',
          cfg_inputs = [\<lparr>cfg_name = ''input'', cfg_shape = [224, 224, 3]\<rparr>],
          cfg_outputs = [\<lparr>cfg_name = ''predictions'', cfg_shape = [1000]\<rparr>],
          cfg_parameters = [(''batch_size'', kInt64Param 4)]\<rparr>)\<rparr>
     ''/repo'' ''resnet50'' Map.empty = Inr (Some (StringValue ''tfzendnn''))"
    by (subst parseModel_worker [OF put_assign_laws,
          where config = "\<lparr>platform = ''tensorflow_graphdef'',
          cfg_inputs = [\<lparr>cfg_name = ''input'', cfg_shape = [224, 224, 3]\<rparr>],
          cfg_outputs = [\<lparr>cfg_name = ''predictions'', cfg_shape = [1000]\<rparr>],
          cfg_parameters = [(''batch_size'', kInt64Param 4)]\<rparr>"]) simp_all
  have b: "parsed_worker put_emplace
     \<lparr>fs_exists = (\<lambda>p. True),
      fs_config = (\<lambda>p. Parsed \<lparr>platform = ''tensorflow_lite'',
          cfg_inputs = [], cfg_outputs = [], cfg_parameters = []\<rparr>)\<rparr>
     ''/repo'' ''resnet50'' Map.empty = Inl InvalidArgument"
    by (subst parseModel_worker [OF put_emplace_laws,
          where config = "\<lparr>platform = ''tensorflow_lite'',
          cfg_inputs = [], cfg_outputs = [], cfg_parameters = []\<rparr>"]) simp_all
  from a b show ?thesis by simp
qed

text \<open>
  Claim C5 as it was stated fails in two places. The mapping is not one-to-one:
  the distinct platforms \<open>onnx_onnxv1\<close> and \<open>migraphx_mxr\<close> both set the worker
  \<open>migraphx\<close>. And a \<open>tensorflow_graphdef\<close> configuration with an input tensor of
  empty shape does not get the worker \<open>tfzendnn\<close>: \<open>shape.at(0)\<close> fails first.
\<close>

theorem parseModel_counterexample:
  "parsed_worker put_assign
     \<lparr>fs_exists = (\<lambda>p. True),
      fs_config = (\<lambda>p. Parsed \<lparr>platform = ''onnx_onnxv1'',
          cfg_inputs = [], cfg_outputs = [], cfg_parameters = []\<rparr>)\<rparr>
     ''/repo'' ''m'' Map.empty = Inr (Some (StringValue ''migraphx''))
   \<and> parsed_worker put_assign
     \<lparr>fs_exists = (\<lambda>p. True),
      fs_config = (\<lambda>p. Parsed \<lparr>platform = ''migraphx_mxr'',
          cfg_inputs = [], cfg_outputs = [], cfg_parameters = []\<rparr>)\<rparr>
     ''/repo'' ''m'' Map.empty = Inr (Some (StringValue ''migraphx''))
   \<and> ''onnx_onnxv1'' \<noteq> ''migraphx_mxr''
   \<and> parsed_worker put_assign
     \<lparr>fs_exists = (\<lambda>p. True),
      fs_config = (\<lambda>p. Parsed \<lparr>platform = ''tensorflow_graphdef'',
          cfg_inputs = [\<lparr>cfg_name = ''input'', cfg_shape = []\<rparr>],
          cfg_outputs = [], cfg_parameters = []\<rparr>)\<rparr>
     ''/repo'' ''m'' Map.empty = Inl OutOfRange"
  by (simp add: parsed_worker_def parseModel_def config_location_def parse_platform_def
      mapProtoToParameters2_def put_assign_def tf_input_step_def at_vec_def Let_def)

section \<open>Properties of Buffer::write\<close>

text \<open>
  Claim C6. For a string \<open>s\<close> and an offset \<open>o\<close>, \<open>Buffer::write\<close> stores the
  characters of \<open>s\<close> from \<open>data(o)\<close> on, a null terminator right after them,
  changes no other byte, and returns \<open>o + s.length() + 1\<close>. For a value of another
  type, with the virtual \<open>write\<close> as the spec has it, it stores the \<open>sizeof(T)\<close>
  bytes of the value from \<open>data(o)\<close> on, changes no other byte, and returns
  \<open>o + sizeof(T)\<close>.
\<close>

theorem Buffer_write_offsets:
  "fst (Buffer_write data_at write_raw (OfString s) offset mem) = offset + length s + 1
   \<and> (\<forall>i<length s.
         snd (Buffer_write data_at write_raw (OfString s) offset mem) (data_at offset + i) = s ! i)
   \<and> snd (Buffer_write data_at write_raw (OfString s) offset mem) (data_at offset + length s)
       = CHR 0x00
   \<and> (\<forall>a. a < data_at offset \<or> data_at offset + length s < a \<longrightarrow>
         snd (Buffer_write data_at write_raw (OfString s) offset mem) a = mem a)
   \<and> fst (Buffer_write data_at (Buffer_write_raw data_at) (OfObject bytes) offset mem)
       = offset + length bytes
   \<and> (\<forall>i<length bytes.
         snd (Buffer_write data_at (Buffer_write_raw data_at) (OfObject bytes) offset mem)
           (data_at offset + i) = bytes ! i)
   \<and> (\<forall>a. a < data_at offset \<or> data_at offset + length bytes \<le> a \<longrightarrow>
         snd (Buffer_write data_at (Buffer_write_raw data_at) (OfObject bytes) offset mem) a
           = mem a)"
  by (auto simp: Buffer_write_def Buffer_write_raw_def copy_to_def Let_def)

theorem Buffer_write_offsets_witness:
  "fst (Buffer_write (\<lambda>off. 100 + off) (Buffer_write_raw (\<lambda>off. 100 + off))
          (OfString ''hi'') 3 (\<lambda>a. CHR ''x'')) = 6
   \<and> snd (Buffer_write (\<lambda>off. 100 + off) (Buffer_write_raw (\<lambda>off. 100 + off))
          (OfString ''hi'') 3 (\<lambda>a. CHR ''x'')) 103 = CHR ''h''
   \<and> snd (Buffer_write (\<lambda>off. 100 + off) (Buffer_write_raw (\<lambda>off. 100 + off))
          (OfString ''hi'') 3 (\<lambda>a. CHR ''x'')) 104 = CHR ''i''
   \<and> snd (Buffer_write (\<lambda>off. 100 + off) (Buffer_write_raw (\<lambda>off. 100 + off))
          (OfString ''hi'') 3 (\<lambda>a. CHR ''x'')) 105 = CHR 0x00
   \<and> snd (Buffer_write (\<lambda>off. 100 + off) (Buffer_write_raw (\<lambda>off. 100 + off))
          (OfString ''hi'') 3 (\<lambda>a. CHR ''x'')) 106 = CHR ''x''
   \<and> fst (Buffer_write (\<lambda>off. 100 + off) (Buffer_write_raw (\<lambda>off. 100 + off))
          (OfObject ''abcd'') 3 (\<lambda>a. CHR ''x'')) = 7
   \<and> snd (Buffer_write (\<lambda>off. 100 + off) (Buffer_write_raw (\<lambda>off. 100 + off))
          (OfObject ''abcd'') 3 (\<lambda>a. CHR ''x'')) 106 = CHR ''d''
   \<and> snd (Buffer_write (\<lambda>off. 100 + off) (Buffer_write_raw (\<lambda>off. 100 + off))
          (OfObject ''abcd'') 3 (\<lambda>a. CHR ''x'')) 107 = CHR ''x''"
proof -
  note w = Buffer_write_offsets [of "\<lambda>off. 100 + off" "Buffer_write_raw (\<lambda>off. 100 + off)"
      "''hi''" 3 "\<lambda>a. CHR ''x''" "''abcd''"]
  from w have s: "\<forall>i<2. snd (Buffer_write (\<lambda>off. 100 + off)
      (Buffer_write_raw (\<lambda>off. 100 + off)) (OfString ''hi'') 3 (\<lambda>a. CHR ''x''))
        (103 + i) = ''hi'' ! i"
    by simp
  from w have t: "\<forall>i<4. snd (Buffer_write (\<lambda>off. 100 + off)
      (Buffer_write_raw (\<lambda>off. 100 + off)) (OfObject ''abcd'') 3 (\<lambda>a. CHR ''x''))
        (103 + i) = ''abcd'' ! i"
    by simp
  from w have f: "\<forall>a. a < 103 \<or> 105 < a \<longrightarrow> snd (Buffer_write (\<lambda>off. 100 + off)
      (Buffer_write_raw (\<lambda>off. 100 + off)) (OfString ''hi'') 3 (\<lambda>a. CHR ''x'')) a = CHR ''x''"
    by simp
  from w have g: "\<forall>a. a < 103 \<or> 107 \<le> a \<longrightarrow> snd (Buffer_write (\<lambda>off. 100 + off)
      (Buffer_write_raw (\<lambda>off. 100 + off)) (OfObject ''abcd'') 3 (\<lambda>a. CHR ''x'')) a = CHR ''x''"
    by simp
  from s [rule_format, of 0] s [rule_format, of 1] t [rule_format, of 3]
    f [rule_format, of 106] g [rule_format, of 107] w
  show ?thesis by simp
qed

section \<open>Properties of VartTensorBuffer::data\<close>

lemma prod_list_pos_int:
  "\<forall>d\<in>set ds. (0::int) < d \<Longrightarrow> 0 < prod_list ds"
  by (induction ds) simp_all

lemma prod_drop_le:
  assumes "\<forall>d\<in>set ds. (0::int) < d"
  shows "prod_list (drop k ds) \<le> prod_list ds"
proof -
  have "\<forall>d\<in>set (take k ds). 0 < d" "\<forall>d\<in>set (drop k ds). 0 < d"
    using assms by (auto dest: in_set_takeD in_set_dropD)
  then have "1 \<le> prod_list (take k ds)" "0 < prod_list (drop k ds)"
    using prod_list_pos_int [of "take k ds"] prod_list_pos_int [of "drop k ds"] by auto
  then have "1 * prod_list (drop k ds) \<le> prod_list (take k ds) * prod_list (drop k ds)"
    by (intro mult_right_mono) auto
  moreover have "prod_list ds = prod_list (take k ds) * prod_list (drop k ds)"
    by (metis append_take_drop_id prod_list.append)
  ultimately show ?thesis by simp
qed

lemma prod_drop_Suc:
  "k < length ds \<Longrightarrow> prod_list (drop k ds) = ds ! k * prod_list (drop (Suc k) ds)"
  by (simp flip: Cons_nth_drop_Suc)

lemma stride_loop:
  assumes pos: "\<forall>d\<in>set dims. 0 < d"
    and "b \<le> length dims" and "0 < acc"
    and "acc * prod_list (take (b - a) (drop a dims)) \<le> INT_MAX"
  shows "for_each [a..<b] (stride_step dims) acc =
           Inr (acc * prod_list (take (b - a) (drop a dims)))"
  using assms(2,4)
proof (induction b)
  case 0
  show ?case by simp
next
  case (Suc b)
  show ?case
  proof (cases "a \<le> b")
    case False
    then show ?thesis by simp
  next
    case True
    from Suc.prems have b: "b < length dims" by simp
    let ?p = "acc * prod_list (take (b - a) (drop a dims))"
    from True b have t: "take (Suc b - a) (drop a dims) = take (b - a) (drop a dims) @ [dims ! b]"
      by (simp add: Suc_diff_le take_Suc_conv_app_nth)
    have "\<forall>d\<in>set (take (b - a) (drop a dims)). 0 < d"
      using pos by (auto dest!: in_set_takeD in_set_dropD)
    from prod_list_pos_int [OF this] assms(3) have p0: "0 < ?p" by simp
    from b have "dims ! b \<in> set dims" by simp
    with pos have "0 < dims ! b" by blast
    then have d1: "1 \<le> dims ! b" by linarith
    from Suc.prems(2) have fin: "?p * dims ! b \<le> INT_MAX" by (simp add: t mult.assoc)
    from p0 d1 have "?p * 1 \<le> ?p * dims ! b" by (intro mult_left_mono) auto
    with fin have "?p \<le> INT_MAX" by simp
    with Suc.IH b have IH: "for_each [a..<b] (stride_step dims) acc = Inr ?p" by simp
    from p0 d1 have "0 \<le> ?p * dims ! b" by simp
    with fin have "stride_step dims b ?p = Inr (?p * dims ! b)"
      using b by (simp add: stride_step_def index_vec_def mul_int_def INT_MIN_def)
    then show ?thesis
      using True by (simp add: for_each_append IH t mult.assoc)
  qed
qed

lemma stride_of_eq:
  assumes pos: "\<forall>d\<in>set dims. 0 < d"
    and "prod_list (drop (Suc k) dims) \<le> INT_MAX"
  shows "stride_of dims k = Inr (prod_list (drop (Suc k) dims))"
  using stride_loop [OF pos, of "length dims" 1 "Suc k"] assms(2)
  by (simp add: stride_of_def)

lemma data_step_eq:
  assumes pos: "\<forall>d\<in>set dims. 0 < d"
    and fits: "prod_list dims \<le> INT_MAX"
    and "0 \<le> off" and "off \<le> INT_MAX"
  shows "data_step dims k (sh, off) =
     Inr (sh[k := off div prod_list (drop (Suc k) dims)],
          off mod prod_list (drop (Suc k) dims))"
proof -
  let ?s = "prod_list (drop (Suc k) dims)"
  have "\<forall>d\<in>set (drop (Suc k) dims). 0 < d"
    using pos by (auto dest: in_set_dropD)
  from prod_list_pos_int [OF this] have s0: "0 < ?s" .
  from prod_drop_le [OF pos, of "Suc k"] fits have sm: "?s \<le> INT_MAX" by simp
  from stride_of_eq [OF pos sm] have st: "stride_of dims k = Inr ?s" .
  from s0 sm have ts: "to_size_t ?s = ?s"
    by (simp add: to_size_t_def INT_MAX_def)
  let ?q = "off div ?s"
  from assms(3) s0 have q0: "0 \<le> ?q" by (simp add: pos_imp_zdiv_nonneg_iff)
  have dm: "?q * ?s + off mod ?s = off" by simp
  from s0 have m0: "0 \<le> off mod ?s" by simp
  from dm m0 have qs: "?q * ?s \<le> off" by linarith
  from s0 q0 have "?q * 1 \<le> ?q * ?s" by (intro mult_left_mono) auto
  with qs have qo: "?q \<le> off" by simp
  with assms(4) q0 have ti: "to_int ?q = ?q"
    by (simp add: to_int_def INT_MAX_def Let_def)
  from q0 s0 have qs0: "0 \<le> ?q * ?s" by simp
  with qs assms(4) have mi: "mul_int ?q ?s = Inr (?q * ?s)"
    by (simp add: mul_int_def INT_MIN_def)
  from qs0 qs assms(4) have t2: "to_size_t (?q * ?s) = ?q * ?s"
    by (simp add: to_size_t_def INT_MAX_def)
  have "off - ?q * ?s = off mod ?s" using dm by linarith
  moreover have "off mod ?s < 2 ^ 64"
  proof -
    from s0 have "off mod ?s < ?s" by simp
    with sm show ?thesis by (simp add: INT_MAX_def)
  qed
  ultimately have t3: "to_size_t (off - ?q * ?s) = off mod ?s"
    using m0 by (simp add: to_size_t_def)
  show ?thesis
    using s0 by (simp add: data_step_def st ts ti mi t2 t3 Let_def)
qed


lemma data_loop:
  assumes pos: "\<forall>d\<in>set dims. 0 < d"
    and fits: "prod_list dims \<le> INT_MAX"
    and "0 \<le> offset" and "offset < prod_list dims"
    and "k \<le> length dims"
  shows "for_each [0..<k] (data_step dims) (replicate (length dims) 0, offset) =
     Inr (map (\<lambda>j. offset mod prod_list (drop j dims) div prod_list (drop (Suc j) dims)) [0..<k]
            @ replicate (length dims - k) 0,
          offset mod prod_list (drop k dims))"
  using assms(5)
proof (induction k)
  case 0
  from assms(3,4) show ?case by simp
next
  case (Suc k)
  from Suc.prems have k: "k < length dims" by simp
  let ?f = "\<lambda>j. offset mod prod_list (drop j dims) div prod_list (drop (Suc j) dims)"
  let ?off = "offset mod prod_list (drop k dims)"
  from Suc.IH k have IH: "for_each [0..<k] (data_step dims) (replicate (length dims) 0, offset) =
     Inr (map ?f [0..<k] @ replicate (length dims - k) 0, ?off)" by simp
  have "\<forall>d\<in>set (drop k dims). 0 < d"
    using pos by (auto dest: in_set_dropD)
  from prod_list_pos_int [OF this] have pk: "0 < prod_list (drop k dims)" .
  then have o0: "0 \<le> ?off" by simp
  from pk have "?off < prod_list (drop k dims)" by simp
  with prod_drop_le [OF pos, of k] fits have om: "?off \<le> INT_MAX" by linarith
  have dvd: "prod_list (drop (Suc k) dims) dvd prod_list (drop k dims)"
    using k by (simp add: prod_drop_Suc)
  have mm: "?off mod prod_list (drop (Suc k) dims) = offset mod prod_list (drop (Suc k) dims)"
    using dvd by (rule mod_mod_cancel)
  from k have rep: "replicate (length dims - k) (0::int) = 0 # replicate (length dims - Suc k) 0"
    by (simp add: Suc_diff_Suc flip: replicate_Suc)
  have upd: "(map ?f [0..<k] @ replicate (length dims - k) 0)[k := ?f k] =
      map ?f [0..<Suc k] @ replicate (length dims - Suc k) 0"
    by (simp add: rep list_update_append)
  have "for_each [0..<Suc k] (data_step dims) (replicate (length dims) 0, offset) =
      (case for_each [0..<k] (data_step dims) (replicate (length dims) 0, offset) of
         Inl e \<Rightarrow> Inl e
       | Inr s' \<Rightarrow> for_each [k] (data_step dims) s')"
    by (simp add: for_each_append)
  also have "\<dots> = Inr ((map ?f [0..<k] @ replicate (length dims - k) 0)[k := ?f k],
                       ?off mod prod_list (drop (Suc k) dims))"
    by (simp add: IH data_step_eq [OF pos fits o0 om])
  also have "\<dots> = Inr (map ?f [0..<Suc k] @ replicate (length dims - Suc k) 0,
                       offset mod prod_list (drop (Suc k) dims))"
    by (simp only: upd mm)
  finally show ?case .
qed

lemma data_index_eq:
  assumes pos: "\<forall>d\<in>set dims. 0 < d"
    and fits: "prod_list dims \<le> INT_MAX"
    and "0 \<le> offset" and "offset < prod_list dims"
  shows "data_index dims offset =
     Inr (map (\<lambda>j. offset mod prod_list (drop j dims) div prod_list (drop (Suc j) dims))
            [0..<length dims])"
  by (simp add: data_index_def data_loop [OF assms order_refl])

lemma row_major_offset_Cons:
  "row_major_offset (d # ds) (i # idx) = i * prod_list ds + row_major_offset ds idx"
  by (simp add: row_major_offset_def row_major_stride_def sum.lessThan_Suc_shift
      del: sum.lessThan_Suc)

lemma in_bounds_Nil: "in_bounds [] idx \<longleftrightarrow> idx = []"
  by (auto simp: in_bounds_def)

lemma in_bounds_Cons:
  "in_bounds (d # ds) idx \<longleftrightarrow>
     (\<exists>i rest. idx = i # rest \<and> 0 \<le> i \<and> i < d \<and> in_bounds ds rest)"
  by (cases idx) (auto simp: in_bounds_def All_less_Suc2)

lemma row_major_offset_range:
  assumes "\<forall>d\<in>set dims. 0 < d" and "in_bounds dims idx"
  shows "0 \<le> row_major_offset dims idx \<and> row_major_offset dims idx < prod_list dims"
  using assms
proof (induction dims arbitrary: idx)
  case Nil
  then show ?case by (simp add: in_bounds_Nil row_major_offset_def)
next
  case (Cons d ds)
  from Cons.prems(2) obtain i rest where
    idx: "idx = i # rest" and i: "0 \<le> i" "i < d" and r: "in_bounds ds rest"
    by (auto simp: in_bounds_Cons)
  from Cons.prems(1) have pos: "\<forall>d\<in>set ds. 0 < d" by simp
  from Cons.IH [OF pos r] have
    r0: "0 \<le> row_major_offset ds rest" and r1: "row_major_offset ds rest < prod_list ds"
    by simp_all
  from prod_list_pos_int [OF pos] have p: "0 < prod_list ds" .
  from i p have ip: "0 \<le> i * prod_list ds" by simp
  from i have "i + 1 \<le> d" by simp
  with p have "(i + 1) * prod_list ds \<le> d * prod_list ds" by (intro mult_right_mono) auto
  then have "i * prod_list ds + prod_list ds \<le> d * prod_list ds" by (simp add: algebra_simps)
  with r0 r1 ip show ?case
    by (simp add: idx row_major_offset_Cons)
qed

lemma row_major_unique:
  assumes "\<forall>d\<in>set dims. 0 < d" and "in_bounds dims a" and "in_bounds dims b"
    and "row_major_offset dims a = row_major_offset dims b"
  shows "a = b"
  using assms
proof (induction dims arbitrary: a b)
  case Nil
  then show ?case by (simp add: in_bounds_Nil)
next
  case (Cons d ds)
  from Cons.prems(2) obtain i as where
    a: "a = i # as" and ra: "in_bounds ds as"
    by (auto simp: in_bounds_Cons)
  from Cons.prems(3) obtain j bs where
    b: "b = j # bs" and rb: "in_bounds ds bs"
    by (auto simp: in_bounds_Cons)
  from Cons.prems(1) have pos: "\<forall>d\<in>set ds. 0 < d" by simp
  from prod_list_pos_int [OF pos] have p: "0 < prod_list ds" .
  from row_major_offset_range [OF pos ra] have
    a0: "0 \<le> row_major_offset ds as" "row_major_offset ds as < prod_list ds" by simp_all
  from row_major_offset_range [OF pos rb] have
    b0: "0 \<le> row_major_offset ds bs" "row_major_offset ds bs < prod_list ds" by simp_all
  from Cons.prems(4) have eq:
    "i * prod_list ds + row_major_offset ds as = j * prod_list ds + row_major_offset ds bs"
    by (simp add: a b row_major_offset_Cons)
  from a0 p have "(i * prod_list ds + row_major_offset ds as) div prod_list ds = i"
    by simp
  moreover from b0 p have "(j * prod_list ds + row_major_offset ds bs) div prod_list ds = j"
    by simp
  ultimately have ij: "i = j" using eq by simp
  with eq have "row_major_offset ds as = row_major_offset ds bs" by simp
  from Cons.IH [OF pos ra rb this] ij show ?case by (simp add: a b)
qed

text \<open>
  Claim C7, as amended. For a tensor whose dimensions are all positive and whose
  number of elements \<open>product(dims)\<close> is at most \<open>2^31 - 1\<close>, and for every offset
  with \<open>0 \<le> offset < product(dims)\<close>, the index vector computed by
  \<open>VartTensorBuffer::data\<close> is the unique row-major mixed-radix decomposition of
  the offset: every index \<open>k\<close> satisfies \<open>0 \<le> shape[k] < dims[k]\<close>, and the sum over
  \<open>k\<close> of \<open>shape[k] * product(dims[k+1..n-1])\<close> is the offset.
\<close>

theorem data_index_mixed_radix:
  assumes pos: "\<forall>d\<in>set dims. 0 < d"
    and fits: "prod_list dims \<le> INT_MAX"
    and "0 \<le> offset" and "offset < prod_list dims"
  shows "\<exists>idx. data_index dims offset = Inr idx
      \<and> in_bounds dims idx
      \<and> row_major_offset dims idx = offset
      \<and> (\<forall>idx'. in_bounds dims idx' \<and> row_major_offset dims idx' = offset \<longrightarrow> idx' = idx)"
proof -
  let ?P = "\<lambda>j. prod_list (drop j dims)"
  let ?f = "\<lambda>j. offset mod ?P j div ?P (Suc j)"
  let ?idx = "map ?f [0..<length dims]"
  have Ppos: "0 < ?P j" for j
  proof -
    have "\<forall>d\<in>set (drop j dims). 0 < d" using pos by (auto dest: in_set_dropD)
    from prod_list_pos_int [OF this] show ?thesis .
  qed
  have bounds: "in_bounds dims ?idx"
    unfolding in_bounds_def
  proof (intro conjI allI impI)
    show "length ?idx = length dims" by simp
  next
    fix k assume k: "k < length dims"
    from Ppos [of k] have "0 \<le> offset mod ?P k" by simp
    with Ppos [of "Suc k"] have "0 \<le> ?f k" by (simp add: pos_imp_zdiv_nonneg_iff)
    with k show "0 \<le> ?idx ! k" by simp
  next
    fix k assume k: "k < length dims"
    from Ppos [of k] have "offset mod ?P k < ?P k" by simp
    with k have lt: "offset mod ?P k < dims ! k * ?P (Suc k)" by (simp add: prod_drop_Suc)
    have "?f k < dims ! k"
    proof (rule ccontr)
      assume "\<not> ?f k < dims ! k"
      then have "dims ! k \<le> ?f k" by simp
      with Ppos [of "Suc k"] have "dims ! k * ?P (Suc k) \<le> ?f k * ?P (Suc k)"
        by (intro mult_right_mono) auto
      moreover have "?f k * ?P (Suc k) + offset mod ?P k mod ?P (Suc k) = offset mod ?P k"
        by simp
      moreover from Ppos [of "Suc k"] have "0 \<le> offset mod ?P k mod ?P (Suc k)" by simp
      ultimately show False using lt by linarith
    qed
    with k show "?idx ! k < dims ! k" by simp
  qed
  have tele: "?f k * ?P (Suc k) = offset mod ?P k - offset mod ?P (Suc k)" if "k < length dims" for k
  proof -
    have "?P (Suc k) dvd ?P k" using that by (simp add: prod_drop_Suc)
    then have "offset mod ?P k mod ?P (Suc k) = offset mod ?P (Suc k)" by (rule mod_mod_cancel)
    moreover have "?f k * ?P (Suc k) = offset mod ?P k - offset mod ?P k mod ?P (Suc k)"
      by (simp add: algebra_simps minus_mod_eq_mult_div)
    ultimately show ?thesis by simp
  qed
  have "row_major_offset dims ?idx = (\<Sum>k<length dims. offset mod ?P k - offset mod ?P (Suc k))"
    unfolding row_major_offset_def row_major_stride_def
    by (rule sum.cong) (simp_all add: tele)
  also have "\<dots> = offset mod ?P 0 - offset mod ?P (length dims)"
    by (rule sum_lessThan_telescope')
  also have "\<dots> = offset" using assms(3,4) by simp
  finally have total: "row_major_offset dims ?idx = offset" .
  have "idx' = ?idx" if "in_bounds dims idx'" "row_major_offset dims idx' = offset" for idx'
    using row_major_unique [OF pos that(1) bounds] that(2) total by simp
  with data_index_eq [OF assms] bounds total show ?thesis by blast
qed

theorem data_index_mixed_radix_witness:
  "prod_list [2, 3, 4] \<le> INT_MAX
   \<and> data_index [2, 3, 4] 17 = Inr [1, 1, 1]
   \<and> in_bounds [2, 3, 4] [1, 1, 1]
   \<and> row_major_offset [2, 3, 4] [1, 1, 1] = 17"
proof -
  have h: "\<forall>d\<in>set [2, 3, 4 :: int]. 0 < d" "prod_list [2, 3, 4] \<le> INT_MAX"
    "(0::int) \<le> 17" "17 < prod_list [2, 3, 4 :: int]"
    by (simp_all add: INT_MAX_def)
  from data_index_mixed_radix [OF h] obtain idx where
    idx: "data_index [2, 3, 4] 17 = Inr idx" "in_bounds [2, 3, 4] idx"
      "row_major_offset [2, 3, 4] idx = 17"
      "\<forall>idx'. in_bounds [2, 3, 4] idx' \<and> row_major_offset [2, 3, 4] idx' = 17 \<longrightarrow> idx' = idx"
    by blast
  have b: "in_bounds [2, 3, 4] [1, 1, 1]"
    by (simp add: in_bounds_def less_Suc_eq numeral_3_eq_3 all_conj_distrib)
  have v: "row_major_offset [2, 3, 4] [1, 1, 1] = 17"
    by (simp add: row_major_offset_def row_major_stride_def numeral_3_eq_3)
  from idx(4) b v have "idx = [1, 1, 1]" by metis
  with idx(1) h b v show ?thesis by simp
qed

text \<open>
  Claim C7 as it was stated fails for a tensor of shape \<open>[1, 65536, 65536]\<close>, whose
  dimensions are positive \<open>int\<close> values, at offset 0: the stride of the first
  index is \<open>65536 * 65536 = 2^32\<close>, which the \<open>int\<close> variable \<open>stride\<close> cannot hold.
\<close>

theorem data_index_overflow_counterexample:
  "(0::int) < 1 \<and> (0::int) < 65536 \<and> 65536 \<le> INT_MAX
   \<and> (0::int) < prod_list [1, 65536, 65536]
   \<and> data_index [1, 65536, 65536] 0 = Inl UndefinedBehaviour"
  by (simp add: data_index_def data_step_def stride_of_def stride_step_def index_vec_def
      mul_int_def INT_MAX_def INT_MIN_def upt_conv_Cons)

end
